theory Spec2Isabelle
  imports Complex_Main
begin

section \<open>FLASH data structures: the embedding\<close>

text \<open>
  A shallow embedding of \<^verbatim>\<open>yt/frontends/flash/data_structures.py\<close>.
  Python exceptions are values of \<open>error\<close>; a function that may raise returns
  \<open>error + 'a\<close> with \<open>Inl\<close> for the exception. Objects that are shared by reference
  (the grid objects of a hierarchy) live in a store, the list \<open>grids\<close>, and a reference
  is the position of the object in that list. Float values are kept in a type
  variable \<open>'f\<close>; their operations are those of the sort of \<open>'f\<close>. No law of
  arithmetic is used on them; where a maximum is stated, their order is linear.
\<close>

datatype error =
    is_KeyError: KeyError string
  | IndexError
  | ValueError
  | TypeError
  | IOError
  | OSError
  | ZeroDivisionError
  | AttributeError

subsection \<open>The checkpoint container\<close>

text \<open>
  The datasets of the HDF5 file that this module reads, by name. A dataset that the
  file does not have is \<open>None\<close>; reading it raises \<open>KeyError\<close>. A parameter table is a
  list of rows (name, value); its value column has one type, so the integer tables and
  the real tables are kept apart. The summary table \<^verbatim>\<open>/simulation parameters\<close> is a
  list of rows of named integer fields. The bounding box of a grid is three
  (lower, upper) pairs.
\<close>

type_synonym 'v table = "(string \<times> 'v) list"

record 'f container =
  int_tables :: "string \<rightharpoonup> int table"
  real_tables :: "string \<rightharpoonup> 'f table"
  simulation_parameters :: "(string \<times> int) list list option"
  bounding_box :: "(('f \<times> 'f) \<times> ('f \<times> 'f) \<times> ('f \<times> 'f)) list option"
  localnp :: "int list option"
  refine_level :: "int list option"
  gid :: "int list list option"

text \<open>An \<^verbatim>\<open>h5py.File\<close> object: whether it is still open, and the file it reads.\<close>

datatype 'f h5file = H5File (is_open: bool) (content: "'f container")

definition h5_get :: "'f h5file \<Rightarrow> ('f container \<Rightarrow> 'a option) \<Rightarrow> string \<Rightarrow> error + 'a" where
  \<comment> \<open>\<^verbatim>\<open>handle[name]\<close>: a closed handle cannot be read, a missing dataset is a KeyError\<close>
  "h5_get f sel name =
     (if \<not> is_open f then Inl ValueError
      else case sel (content f) of None \<Rightarrow> Inl (KeyError name) | Some d \<Rightarrow> Inr d)"

definition py_index :: "nat \<Rightarrow> int \<Rightarrow> error + nat" where
  \<comment> \<open>indexing an array of \<open>n\<close> elements: a negative index counts from the end\<close>
  "py_index n j =
     (if 0 \<le> j \<and> j < int n then Inr (nat j)
      else if - int n \<le> j \<and> j < 0 then Inr (nat (int n + j))
      else Inl IndexError)"

subsection \<open>Grids and the hierarchy\<close>

text \<open>
  \<^verbatim>\<open>FLASHGrid\<close>. \<open>Parent\<close> and the elements of \<open>Children\<close> are references to grid
  objects: positions in the array \<open>grids\<close> of the hierarchy.
\<close>

record grid =
  grid_id :: int
  Level :: int
  Parent :: "nat option"
  Children :: "nat list"

definition id_offset :: int where
  "id_offset = 1"

definition FLASHGrid_init :: "int \<Rightarrow> int \<Rightarrow> grid" where
  "FLASHGrid_init i level = \<lparr>grid_id = i, Level = level, Parent = None, Children = []\<rparr>"

record 'f hierarchy =
  handle :: "'f h5file option"
  num_grids :: int
  grid_left_edge :: "('f \<times> 'f \<times> 'f) list"
  grid_right_edge :: "('f \<times> 'f \<times> 'f) list"
  grid_dimensions :: "(int \<times> int \<times> int) list"
  grid_levels :: "int list"
  grid_particle_count :: "int list"
  particle_indices :: "int list"
  grids :: "grid list"
  max_level :: "int option"

subsection \<open>\<^verbatim>\<open>_populate_grid_objects\<close>\<close>

text \<open>
  The list comprehension
  \<^verbatim>\<open>[self.grids[i - 1] for i in gid[gi,7:] if i > -1]\<close>
  over the child slots of one row, for an array of \<open>n\<close> grids.
\<close>

fun children_refs :: "nat \<Rightarrow> int list \<Rightarrow> error + nat list" where
  "children_refs n [] = Inr []"
| "children_refs n (i # slots) =
     (if i > -1 then
        (case py_index n (i - 1) of
           Inl e \<Rightarrow> Inl e
         | Inr c \<Rightarrow>
             (case children_refs n slots of
                Inl e \<Rightarrow> Inl e
              | Inr cs \<Rightarrow> Inr (c # cs)))
      else children_refs n slots)"

text \<open>\<^verbatim>\<open>for g1 in g.Children: g1.Parent = g\<close>, where \<open>g\<close> is the object at \<open>p\<close>.\<close>

fun set_parents :: "nat \<Rightarrow> nat list \<Rightarrow> grid list \<Rightarrow> grid list" where
  "set_parents p [] gs = gs"
| "set_parents p (c # cs) gs = set_parents p cs (gs[c := (gs ! c)\<lparr>Parent := Some p\<rparr>])"

text \<open>
  Modelled from the spec: \<^verbatim>\<open>_prepare_grid\<close> and \<^verbatim>\<open>_setup_dx\<close> are methods of the
  base grid class, which is not in this module. They copy the grid's own row of the
  hierarchy arrays onto the grid and compute its cell spacing from its own edges and
  dimensions; \<^verbatim>\<open>_prepare_grid\<close> also writes the grid's level back into its row
  of \<open>grid_levels\<close> (the comment in \<^verbatim>\<open>_parse_hierarchy\<close>: it "will reset it to its
  current value"). Neither touches \<open>Parent\<close> or \<open>Children\<close>. Edges, dimensions and
  spacing of a grid object are not part of this model.
\<close>

definition prepare_grid :: "nat \<Rightarrow> 'f hierarchy \<Rightarrow> error + 'f hierarchy" where
  "prepare_grid p h =
     (let g = grids h ! p; my_ind = grid_id g - id_offset in
      case py_index (length (grid_levels h)) my_ind of
        Inl e \<Rightarrow> Inl e
      | Inr k \<Rightarrow> Inr (h\<lparr>grid_levels := (grid_levels h)[k := Level g]\<rparr>))"

text \<open>One iteration of the loop, for the grid object at position \<open>p\<close>.\<close>

definition populate_grid :: "int list list \<Rightarrow> nat \<Rightarrow> 'f hierarchy \<Rightarrow> error + 'f hierarchy" where
  "populate_grid gidt p h =
     (let g = grids h ! p; gi = grid_id g - id_offset in
      case py_index (length gidt) gi of
        Inl e \<Rightarrow> Inl e
      | Inr r \<Rightarrow>
          (case children_refs (length (grids h)) (drop 7 (gidt ! r)) of
             Inl e \<Rightarrow> Inl e
           | Inr cs \<Rightarrow>
               prepare_grid p
                 (h\<lparr>grids := set_parents p cs ((grids h)[p := g\<lparr>Children := cs\<rparr>])\<rparr>)))"

fun populate_loop :: "int list list \<Rightarrow> nat list \<Rightarrow> 'f hierarchy \<Rightarrow> error + 'f hierarchy" where
  "populate_loop gidt [] h = Inr h"
| "populate_loop gidt (p # ps) h =
     (case populate_grid gidt p h of
        Inl e \<Rightarrow> Inl e
      | Inr h' \<Rightarrow> populate_loop gidt ps h')"

definition argsort :: "int list \<Rightarrow> nat list" where
  \<comment> \<open>the positions \<open>0..<n\<close> in ascending order of their value\<close>
  "argsort xs = sort_key (\<lambda>i. xs ! i) [0..<length xs]"

definition array_max :: "int list \<Rightarrow> error + int" where
  \<comment> \<open>\<^verbatim>\<open>ndarray.max()\<close>: an empty array has no maximum\<close>
  "array_max xs = (case xs of [] \<Rightarrow> Inl ValueError | x # r \<Rightarrow> Inr (fold max r x))"

text \<open>
  \<^verbatim>\<open>self.grids[ii]\<close> takes the grid objects at the positions \<open>ii\<close>; a position beyond
  the array of grids is an IndexError.
\<close>

definition populate_grid_objects :: "'f hierarchy \<Rightarrow> error + 'f hierarchy" where
  "populate_grid_objects h =
     (let ii = argsort (grid_levels h) in
      case handle h of
        None \<Rightarrow> Inl TypeError
      | Some f \<Rightarrow>
          (case h5_get f gid ''/gid'' of
             Inl e \<Rightarrow> Inl e
           | Inr gidt \<Rightarrow>
               (if \<exists>p \<in> set ii. length (grids h) \<le> p then Inl IndexError
                else
                  (case populate_loop gidt ii h of
                     Inl e \<Rightarrow> Inl e
                   | Inr h' \<Rightarrow>
                       (case array_max (grid_levels h') of
                          Inl e \<Rightarrow> Inl e
                        | Inr m \<Rightarrow> Inr (h'\<lparr>max_level := Some m\<rparr>))))))"

definition h5py_File :: "'f container option \<Rightarrow> error + 'f h5file" where
  \<comment> \<open>opening the file of the parameter file's name; \<open>None\<close>: it cannot be opened\<close>
  "h5py_File file = (case file of None \<Rightarrow> Inl IOError | Some c \<Rightarrow> Inr (H5File True c))"

definition h5_close :: "'f h5file \<Rightarrow> 'f h5file" where
  "h5_close f = H5File False (content f)"

subsection \<open>The simulation output and \<^verbatim>\<open>_find_parameter\<close>\<close>

datatype 'f pyval = Str string | Num 'f

text \<open>
  \<^verbatim>\<open>FLASHStaticOutput\<close>. \<open>file_contents\<close> is the container stored under
  \<^verbatim>\<open>parameter_filename\<close> (\<open>None\<close>: no readable file); an attribute that has not been
  assigned yet is \<open>None\<close>. \<open>conversion_default\<close> is the default of the
  \<^verbatim>\<open>defaultdict\<close> that \<^verbatim>\<open>_set_units\<close> installs.
\<close>

record 'f static_output =
  file_contents :: "'f container option"
  pf_handle :: "'f h5file option"
  parameters :: "(string \<times> 'f pyval) list"
  conversion_factors :: "string \<rightharpoonup> 'f"
  conversion_default :: "'f option"
  units :: "string \<rightharpoonup> 'f"
  time_units :: "string \<rightharpoonup> 'f"
  domain_left_edge :: "('f \<times> 'f \<times> 'f) option"
  domain_right_edge :: "('f \<times> 'f \<times> 'f) option"
  current_time :: "'f option"

definition is_space :: "char \<Rightarrow> bool" where
  "is_space c = (c \<in> set [CHR '' '', CHR 0x09, CHR 0x0A, CHR 0x0B, CHR 0x0C, CHR 0x0D])"

definition strip :: "string \<Rightarrow> string" where
  \<comment> \<open>\<^verbatim>\<open>str.strip()\<close>: whitespace removed at both ends\<close>
  "strip s = rev (dropWhile is_space (rev (dropWhile is_space s)))"

definition table_name :: "string \<Rightarrow> bool \<Rightarrow> string" where
  "table_name ptype scalar =
     ''/'' @ ptype @ '' '' @ (if scalar then ''scalars'' else ''runtime parameters'')"

text \<open>
  The loop
  \<^verbatim>\<open>for tpname, pval in handle[nn][:]: if tpname.strip() == pname: return pval\<close>
  and the \<^verbatim>\<open>raise KeyError(pname)\<close> after it.
\<close>

fun scan_rows :: "'v table \<Rightarrow> string \<Rightarrow> error + 'v" where
  "scan_rows [] pname = Inl (KeyError pname)"
| "scan_rows ((tpname, pval) # rows) pname =
     (if strip tpname = pname then Inr pval else scan_rows rows pname)"

definition resolve_handle :: "'f static_output \<Rightarrow> 'f h5file option \<Rightarrow> error + 'f h5file" where
  "resolve_handle pf hdl =
     (case hdl of
        Some f \<Rightarrow> Inr f
      | None \<Rightarrow>
          (case pf_handle pf of
             Some f \<Rightarrow> Inr f
           | None \<Rightarrow> h5py_File (file_contents pf)))"

text \<open>
  \<open>tables\<close> is the view of the container that holds the tables of the value type
  asked for: \<open>int_tables\<close> with \<open>ptype = ''integer''\<close>, \<open>real_tables\<close> with
  \<open>ptype = ''real''\<close>.
\<close>

definition find_parameter ::
  "'f static_output \<Rightarrow> ('f container \<Rightarrow> string \<rightharpoonup> 'v table) \<Rightarrow>
     string \<Rightarrow> string \<Rightarrow> bool \<Rightarrow> 'f h5file option \<Rightarrow> error + 'v" where
  "find_parameter pf tables ptype pname scalar hdl =
     (case resolve_handle pf hdl of
        Inl e \<Rightarrow> Inl e
      | Inr f \<Rightarrow>
          (let nn = table_name ptype scalar in
           case h5_get f (\<lambda>c. tables c nn) nn of
             Inl e \<Rightarrow> Inl e
           | Inr rows \<Rightarrow> scan_rows rows pname))"

subsection \<open>\<^verbatim>\<open>_count_grids\<close>\<close>

definition summary_first :: "'f h5file option \<Rightarrow> error + int" where
  \<comment> \<open>\<^verbatim>\<open>self._handle["/simulation parameters"][0][0]\<close>\<close>
  "summary_first hdl =
     (case hdl of
        None \<Rightarrow> Inl TypeError
      | Some f \<Rightarrow>
          (case h5_get f simulation_parameters ''/simulation parameters'' of
             Inl e \<Rightarrow> Inl e
           | Inr rows \<Rightarrow>
               (case rows of
                  [] \<Rightarrow> Inl IndexError
                | row # _ \<Rightarrow>
                    (case row of
                       [] \<Rightarrow> Inl IndexError
                     | (name, v) # _ \<Rightarrow> Inr v))))"

definition count_grids :: "'f static_output \<Rightarrow> 'f hierarchy \<Rightarrow> error + 'f hierarchy" where
  "count_grids pf h =
     (case find_parameter pf int_tables ''integer'' ''globalnumblocks'' True (handle h) of
        Inr n \<Rightarrow> Inr (h\<lparr>num_grids := n\<rparr>)
      | Inl e \<Rightarrow>
          (if is_KeyError e then
             (case summary_first (handle h) of
                Inl e' \<Rightarrow> Inl e'
              | Inr n \<Rightarrow> Inr (h\<lparr>num_grids := n\<rparr>))
           else Inl e))"

subsection \<open>\<^verbatim>\<open>_parse_hierarchy\<close>\<close>

definition assign_rows :: "'a list \<Rightarrow> 'a list \<Rightarrow> error + 'a list" where
  \<comment> \<open>\<^verbatim>\<open>dst[:] = src\<close> on whole rows: equal lengths, or one row broadcast to all\<close>
  "assign_rows dst src =
     (if length src = length dst then Inr src
      else if length src = 1 then Inr (replicate (length dst) (hd src))
      else Inl ValueError)"

definition flat_assign :: "'a list \<Rightarrow> 'a list \<Rightarrow> 'a list" where
  \<comment> \<open>\<^verbatim>\<open>dst.flat[:] = vals\<close>: the values are repeated as needed; no value, no change\<close>
  "flat_assign dst vals =
     (if vals = [] then dst
      else map (\<lambda>k. vals ! (k mod length vals)) [0..<length dst])"

definition summary_field :: "'f h5file \<Rightarrow> string \<Rightarrow> error + int" where
  \<comment> \<open>\<^verbatim>\<open>int(f["/simulation parameters"][name])\<close>: the column must have one element\<close>
  "summary_field f name =
     (case h5_get f simulation_parameters ''/simulation parameters'' of
        Inl e \<Rightarrow> Inl e
      | Inr rows \<Rightarrow>
          (case rows of
             [row] \<Rightarrow> (case map_of row name of None \<Rightarrow> Inl ValueError | Some v \<Rightarrow> Inr v)
           | _ \<Rightarrow> Inl TypeError))"

definition summary_block_sizes :: "'f h5file \<Rightarrow> error + (int \<times> int \<times> int)" where
  \<comment> \<open>\<^verbatim>\<open>[int(f["/simulation parameters"]['n%sb' % ax]) for ax in 'xyz']\<close>\<close>
  "summary_block_sizes f =
     (case summary_field f ''nxb'' of
        Inl e \<Rightarrow> Inl e
      | Inr nxb \<Rightarrow>
          (case summary_field f ''nyb'' of
             Inl e \<Rightarrow> Inl e
           | Inr nyb \<Rightarrow>
               (case summary_field f ''nzb'' of
                  Inl e \<Rightarrow> Inl e
                | Inr nzb \<Rightarrow> Inr (nxb, nyb, nzb))))"

definition lookup_block_sizes ::
  "'f static_output \<Rightarrow> 'f h5file \<Rightarrow> error + (int \<times> int \<times> int)" where
  \<comment> \<open>the body of the \<^verbatim>\<open>try\<close>: three lookups, the first failure leaves it\<close>
  "lookup_block_sizes pf f =
     (case find_parameter pf int_tables ''integer'' ''nxb'' True (Some f) of
        Inl e \<Rightarrow> Inl e
      | Inr nxb \<Rightarrow>
          (case find_parameter pf int_tables ''integer'' ''nyb'' True (Some f) of
             Inl e \<Rightarrow> Inl e
           | Inr nyb \<Rightarrow>
               (case find_parameter pf int_tables ''integer'' ''nzb'' True (Some f) of
                  Inl e \<Rightarrow> Inl e
                | Inr nzb \<Rightarrow> Inr (nxb, nyb, nzb))))"

definition block_sizes ::
  "'f static_output \<Rightarrow> 'f h5file \<Rightarrow> error + (int \<times> int \<times> int)" where
  "block_sizes pf f =
     (case lookup_block_sizes pf f of
        Inr b \<Rightarrow> Inr b
      | Inl e \<Rightarrow> (if is_KeyError e then summary_block_sizes f else Inl e))"

definition wrap64 :: "int \<Rightarrow> int" where
  \<comment> \<open>the value an \<^verbatim>\<open>int64\<close> holds after an operation whose exact result is \<open>x\<close>\<close>
  "wrap64 x = (x + 2 ^ 63) mod 2 ^ 64 - 2 ^ 63"

fun accumulate_from :: "int \<Rightarrow> int list \<Rightarrow> int list" where
  "accumulate_from acc [] = []"
| "accumulate_from acc (c # cs) = (let s = wrap64 (acc + c) in s # accumulate_from s cs)"

definition add_accumulate :: "int list \<Rightarrow> int list" where
  \<comment> \<open>\<^verbatim>\<open>na.add.accumulate\<close> into an \<^verbatim>\<open>int64\<close> array: the running sums\<close>
  "add_accumulate xs = (case xs of [] \<Rightarrow> [] | x # r \<Rightarrow> wrap64 x # accumulate_from (wrap64 x) r)"

definition parse_hierarchy :: "'f static_output \<Rightarrow> 'f hierarchy \<Rightarrow> error + 'f hierarchy" where
  "parse_hierarchy pf h =
     (case handle h of
        None \<Rightarrow> Inl TypeError
      | Some f \<Rightarrow>
     (case h5_get f bounding_box ''/bounding box'' of
        Inl e \<Rightarrow> Inl e
      | Inr bb \<Rightarrow>
     (case assign_rows (grid_left_edge h) (map (\<lambda>(x, y, z). (fst x, fst y, fst z)) bb) of
        Inl e \<Rightarrow> Inl e
      | Inr le \<Rightarrow>
     (case assign_rows (grid_right_edge h) (map (\<lambda>(x, y, z). (snd x, snd y, snd z)) bb) of
        Inl e \<Rightarrow> Inl e
      | Inr re \<Rightarrow>
     (case block_sizes pf f of
        Inl e \<Rightarrow> Inl e
      | Inr (nxb, nyb, nzb) \<Rightarrow>
     (case h5_get f localnp ''/localnp'' of
        Inl e \<Rightarrow> Inl e
      | Inr np \<Rightarrow>
     (case assign_rows (grid_particle_count h) np of
        Inl e \<Rightarrow> Inl e
      | Inr counts \<Rightarrow>
     (if num_grids h + 1 < 0 then Inl ValueError else
     (let zeros = replicate (nat (num_grids h + 1)) (0::int) in
      if length counts \<noteq> length (drop 1 zeros) then Inl ValueError else
     (case h5_get f refine_level ''/refine level'' of
        Inl e \<Rightarrow> Inl e
      | Inr rl \<Rightarrow>
          (let dims = map (\<lambda>(a, b, c). (a * nxb, b * nyb, c * nzb)) (grid_dimensions h);
               offsets = take 1 zeros @ add_accumulate counts;
               levels = flat_assign (grid_levels h) (map (\<lambda>l. l - 1) rl)
           in if length levels < nat (num_grids h) then Inl IndexError
              else
                (let g = map (\<lambda>i. FLASHGrid_init (int i + 1) (levels ! i))
                           [0..<nat (num_grids h)]
                 in Inr (h\<lparr>grid_left_edge := le, grid_right_edge := re,
                           grid_dimensions := dims, grid_particle_count := counts,
                           particle_indices := offsets, grid_levels := levels,
                           grids := g\<rparr>)))))))))))))"

subsection \<open>The constructor of the hierarchy\<close>

text \<open>
  Modelled from the spec: the base hierarchy framework is not in this module. It
  allocates the per-grid arrays for \<open>num_grids\<close> grids (dimensions start at the unit
  baseline) and its constructor runs the three phases in order: count the grids,
  parse the flat arrays, populate the relationships. A phase that raises ends the
  constructor.
\<close>

definition initialize_grid_arrays :: "'f::zero hierarchy \<Rightarrow> error + 'f hierarchy" where
  "initialize_grid_arrays h =
     (if num_grids h < 0 then Inl ValueError
      else (let n = nat (num_grids h) in
        Inr (h\<lparr>grid_dimensions := replicate n (1, 1, 1),
               grid_left_edge := replicate n (0, 0, 0),
               grid_right_edge := replicate n (0, 0, 0),
               grid_levels := replicate n 0,
               grid_particle_count := replicate n 0\<rparr>)))"

definition AMRHierarchy_init :: "'f::zero static_output \<Rightarrow> 'f hierarchy \<Rightarrow> error + 'f hierarchy" where
  "AMRHierarchy_init pf h =
     (case count_grids pf h of
        Inl e \<Rightarrow> Inl e
      | Inr h1 \<Rightarrow>
          (case initialize_grid_arrays h1 of
             Inl e \<Rightarrow> Inl e
           | Inr h2 \<Rightarrow>
               (case parse_hierarchy pf h2 of
                  Inl e \<Rightarrow> Inl e
                | Inr h3 \<Rightarrow> populate_grid_objects h3)))"

definition new_hierarchy :: "'f hierarchy" where
  \<comment> \<open>the object before its constructor has run\<close>
  "new_hierarchy =
     \<lparr>handle = None, num_grids = 0, grid_left_edge = [], grid_right_edge = [],
      grid_dimensions = [], grid_levels = [], grid_particle_count = [],
      particle_indices = [], grids = [], max_level = None\<rparr>"

text \<open>
  \<^verbatim>\<open>FLASHHierarchy.__init__\<close>. The result is what the caller gets (the exception or
  the hierarchy) together with the file object this call has opened, as it is when the
  call ends; \<open>None\<close> when none was opened.
\<close>

definition FLASHHierarchy_init ::
  "'f::zero static_output \<Rightarrow> (error + 'f hierarchy) \<times> 'f h5file option" where
  "FLASHHierarchy_init pf =
     (case h5py_File (file_contents pf) of
        Inl e \<Rightarrow> (Inl e, None)
      | Inr f \<Rightarrow>
          (case AMRHierarchy_init pf (new_hierarchy\<lparr>handle := Some f\<rparr>) of
             Inl e \<Rightarrow> (Inl e, Some f)
           | Inr h \<Rightarrow> (Inr (h\<lparr>handle := None\<rparr>), Some (h5_close f))))"

subsection \<open>\<^verbatim>\<open>_parse_parameter_file\<close> and \<^verbatim>\<open>_set_units\<close>\<close>

definition find_axes :: "'f static_output \<Rightarrow> string \<Rightarrow> error + ('f \<times> 'f \<times> 'f)" where
  \<comment> \<open>\<^verbatim>\<open>[self._find_parameter("real", "%s<suffix>" % ax) for ax in 'xyz']\<close>\<close>
  "find_axes pf suffix =
     (case find_parameter pf real_tables ''real'' (''x'' @ suffix) False None of
        Inl e \<Rightarrow> Inl e
      | Inr x \<Rightarrow>
          (case find_parameter pf real_tables ''real'' (''y'' @ suffix) False None of
             Inl e \<Rightarrow> Inl e
           | Inr y \<Rightarrow>
               (case find_parameter pf real_tables ''real'' (''z'' @ suffix) False None of
                  Inl e \<Rightarrow> Inl e
                | Inr z \<Rightarrow> Inr (x, y, z))))"

text \<open>
  The result is the exception raised, if any, and the object as the call leaves it.
  The identifier taken from the file's change time is not modelled; \<^verbatim>\<open>os.stat\<close>
  raises when there is no file.
\<close>

definition parse_parameter_file ::
  "'f static_output \<Rightarrow> error option \<times> 'f static_output" where
  "parse_parameter_file pf =
     (case file_contents pf of
        None \<Rightarrow> (Some OSError, pf)
      | Some c \<Rightarrow>
          (let pf1 = pf\<lparr>pf_handle := Some (H5File True c)\<rparr> in
           case find_axes pf1 ''min'' of
             Inl e \<Rightarrow> (Some e, pf1)
           | Inr le \<Rightarrow>
               (let pf2 = pf1\<lparr>domain_left_edge := Some le\<rparr> in
                case find_axes pf2 ''max'' of
                  Inl e \<Rightarrow> (Some e, pf2)
                | Inr re \<Rightarrow>
                    (let pf3 = pf2\<lparr>domain_right_edge := Some re\<rparr> in
                     case find_parameter pf3 real_tables ''real'' ''time'' True None of
                       Inl e \<Rightarrow> (Some e, pf3)
                     | Inr t \<Rightarrow>
                         (None, pf3\<lparr>current_time := Some t,
                                     pf_handle := Some (H5File False c)\<rparr>)))))"

text \<open>
  Modelled from the spec: \<^verbatim>\<open>has_key\<close> belongs to the base class of the simulation
  output; "TimeUnits" is looked for among the parameters.
\<close>

definition has_key :: "'f static_output \<Rightarrow> string \<Rightarrow> bool" where
  "has_key pf k = (k \<in> set (map fst (parameters pf)))"

text \<open>
  The loop \<^verbatim>\<open>for unit in mpc_conversion.keys()\<close>. The table \<open>mpc\<close> of length units
  comes from another module and is a parameter here. The division is one of Python
  floats: it raises when the divisor is zero.
\<close>

fun units_loop :: "'f::{zero,inverse} table \<Rightarrow> string list \<Rightarrow> (string \<rightharpoonup> 'f) \<Rightarrow> error + (string \<rightharpoonup> 'f)" where
  "units_loop mpc [] u = Inr u"
| "units_loop mpc (unit # rest) u =
     (case map_of mpc unit of
        None \<Rightarrow> Inl (KeyError unit)
      | Some a \<Rightarrow>
          (case map_of mpc ''cm'' of
             None \<Rightarrow> Inl (KeyError ''cm'')
           | Some c \<Rightarrow>
               (if c = 0 then Inl ZeroDivisionError
                else units_loop mpc rest (u(unit \<mapsto> a / c)))))"

definition setup_nounits_units ::
  "'f::{zero,one,inverse} table \<Rightarrow> 'f static_output \<Rightarrow> error + 'f static_output" where
  "setup_nounits_units mpc pf =
     (let pf1 = (if \<not> has_key pf ''TimeUnits''
                 then pf\<lparr>conversion_factors := (conversion_factors pf)(''Time'' \<mapsto> 1)\<rparr>
                 else pf) in
      case units_loop mpc (map fst mpc) (units pf1) of
        Inl e \<Rightarrow> Inl e
      | Inr u \<Rightarrow> Inr (pf1\<lparr>units := u\<rparr>))"

definition array_max3 :: "('f::ord \<times> 'f \<times> 'f) \<Rightarrow> 'f" where
  \<comment> \<open>\<^verbatim>\<open>.max()\<close> of an array of three floats\<close>
  "array_max3 v = (case v of (x, y, z) \<Rightarrow> max (max x y) z)"

definition array_sub3 :: "('f::minus \<times> 'f \<times> 'f) \<Rightarrow> ('f \<times> 'f \<times> 'f) \<Rightarrow> ('f \<times> 'f \<times> 'f)" where
  "array_sub3 a b = (case (a, b) of ((x, y, z), (x', y', z')) \<Rightarrow> (x - x', y - y', z - z'))"

definition set_units ::
  "'f::{zero,numeral,times,inverse,minus,ord} table \<Rightarrow> 'f static_output \<Rightarrow> error + 'f static_output" where
  "set_units mpc pf =
     (let pf1 = pf\<lparr>units := Map.empty, time_units := Map.empty\<rparr>;
          parsed = (if length (parameters pf1) = 0 then parse_parameter_file pf1 else (None, pf1))
      in case parsed of
           (Some e, pf2) \<Rightarrow> Inl e
         | (None, pf2) \<Rightarrow>
             (case setup_nounits_units mpc pf2 of
                Inl e \<Rightarrow> Inl e
              | Inr pf3 \<Rightarrow>
                  (let pf4 = pf3\<lparr>conversion_factors := Map.empty, conversion_default := Some 1\<rparr>;
                       pf5 = pf4\<lparr>time_units := (time_units pf4)(''1'' \<mapsto> 1)\<rparr>;
                       pf6 = pf5\<lparr>units := (units pf5)(''1'' \<mapsto> 1)\<rparr>
                   in case (domain_right_edge pf6, domain_left_edge pf6) of
                        (Some re, Some le) \<Rightarrow>
                          (let pf7 = pf6\<lparr>units := (units pf6)
                                 (''unitary'' \<mapsto> 1 / array_max3 (array_sub3 re le))\<rparr>;
                               seconds = 1;
                               pf8 = pf7\<lparr>time_units := (time_units pf7)
                                 (''years'' \<mapsto> seconds / (365 * 3600 * 24))\<rparr>
                           in Inr (pf8\<lparr>time_units := (time_units pf8)
                                 (''days'' \<mapsto> seconds / (3600 * 24))\<rparr>))
                      | _ \<Rightarrow> Inl AttributeError)))"

subsection \<open>Sample inputs\<close>

text \<open>
  Concrete files and objects on which the properties below are exercised. A sample
  file has its parameter tables filled in (names padded with blanks, as FLASH writes
  them), unit bounding boxes, and the refinement levels, particle counts and adjacency
  table given; an adjacency row is seven face and parent slots followed by the child
  slots.
\<close>

definition returns :: "error + 'a \<Rightarrow> bool" where
  \<comment> \<open>the call came back with a result, not an exception\<close>
  "returns r = (case r of Inl e \<Rightarrow> False | Inr x \<Rightarrow> True)"

definition sample_file :: "int list \<Rightarrow> int list \<Rightarrow> int list list \<Rightarrow> rat container" where
  "sample_file levels counts adjacency =
     \<lparr>int_tables =
        [''/integer scalars'' \<mapsto>
           [(''globalnumblocks   '', int (length levels)),
            (''nxb '', 8), (''nyb '', 8), (''nzb '', 8)]],
      real_tables =
        [''/real runtime parameters'' \<mapsto>
           [(''xmin  '', 0), (''xmax  '', 4), (''ymin  '', 0), (''ymax  '', 2),
            (''zmin  '', 0), (''zmax  '', 1)],
         ''/real scalars'' \<mapsto> [(''time  '', 0)]],
      simulation_parameters =
        Some [[(''total blocks'', int (length levels)), (''nxb'', 8), (''nyb'', 8), (''nzb'', 8)]],
      bounding_box = Some (replicate (length levels) ((0, 1), (0, 1), (0, 1))),
      localnp = Some counts,
      refine_level = Some levels,
      gid = Some adjacency\<rparr>"

definition sample_output :: "rat container \<Rightarrow> rat static_output" where
  "sample_output file =
     \<lparr>file_contents = Some file, pf_handle = None,
      parameters = [(''HydroMethod'', Str ''flash''), (''Time'', Num 1)],
      conversion_factors = Map.empty, conversion_default = None,
      units = Map.empty, time_units = Map.empty,
      domain_left_edge = None, domain_right_edge = None, current_time = None\<rparr>"

definition allocated :: "rat container \<Rightarrow> nat \<Rightarrow> rat hierarchy" where
  \<comment> \<open>the hierarchy of \<open>n\<close> grids on the open file, its arrays allocated, before parsing\<close>
  "allocated file n =
     \<lparr>handle = Some (H5File True file), num_grids = int n,
      grid_left_edge = replicate n (0, 0, 0), grid_right_edge = replicate n (0, 0, 0),
      grid_dimensions = replicate n (1, 1, 1), grid_levels = replicate n 0,
      grid_particle_count = replicate n 0, particle_indices = [], grids = [],
      max_level = None\<rparr>"

definition parsed :: "rat container \<Rightarrow> nat \<Rightarrow> error + rat hierarchy" where
  "parsed file n = parse_hierarchy (sample_output file) (allocated file n)"

definition adjacency_row :: "int list \<Rightarrow> int list" where
  "adjacency_row children = replicate 7 (-1) @ children"

definition leaf_row :: "int list" where
  "leaf_row = adjacency_row (replicate 8 (-1))"

text \<open>Four grids: grid 1 at level 0 with children 2 and 3; grid 4 has no parent.\<close>

definition tree_file :: "rat container" where
  "tree_file = sample_file [1, 2, 2, 2] [0, 5, 3, 0]
     [adjacency_row [2, 3, -1, -1, -1, -1, -1, -1], leaf_row, leaf_row, leaf_row]"

text \<open>Eight grids; the row of grid 1 names a child 99.\<close>

definition corrupt_rows :: "int list list" where
  "corrupt_rows = adjacency_row [2, 99, -1, -1, -1, -1, -1, -1] # replicate 7 leaf_row"

definition corrupt_file :: "rat container" where
  "corrupt_file = sample_file [1, 2, 2, 2, 2, 2, 2, 2] (replicate 8 0) corrupt_rows"

text \<open>Three grids; the row of grid 1 names child 2 and holds a 0 in its next slot.\<close>

definition zero_slot_file :: "rat container" where
  "zero_slot_file = sample_file [1, 2, 2] [0, 0, 0]
     [adjacency_row [2, 0, -1, -1, -1, -1, -1, -1], leaf_row, leaf_row]"

text \<open>Two grids; the only child slot that is not -1 holds 0.\<close>

definition zero_only_rows :: "int list list" where
  "zero_only_rows = [adjacency_row [0, -1, -1, -1, -1, -1, -1, -1], leaf_row]"

definition zero_only_file :: "rat container" where
  "zero_only_file = sample_file [1, 2] [0, 0] zero_only_rows"

text \<open>
  A file whose domain starts away from the origin and is widest along the second axis,
  a table of length units per megaparsec, and an output on that file whose parameters
  are not read yet.
\<close>

definition skew_domain_file :: "rat container" where
  "skew_domain_file = tree_file\<lparr>real_tables :=
     [''/real runtime parameters'' \<mapsto>
        [(''xmin  '', 1), (''xmax  '', 2), (''ymin  '', -1), (''ymax  '', 3),
         (''zmin  '', 0), (''zmax  '', 2)],
      ''/real scalars'' \<mapsto> [(''time  '', 0)]]\<rparr>"

definition length_units :: "rat table" where
  "length_units =
     [(''mpc'', 1), (''kpc'', 1000), (''pc'', 1000000), (''au'', 206300000000),
      (''rsun'', 22167000000000), (''cm'', 3085700000000000000000000)]"

definition unparsed_output :: "rat static_output" where
  "unparsed_output = (sample_output skew_domain_file)\<lparr>parameters := []\<rparr>"

text \<open>
  Files of an older format: one whose integer scalars lack "nxb" (and give other block
  sizes than the summary table), one without integer tables, and one whose real
  parameters lack "zmax".
\<close>

definition no_nxb_file :: "rat container" where
  "no_nxb_file = tree_file\<lparr>int_tables :=
     [''/integer scalars'' \<mapsto>
        [(''globalnumblocks   '', 4), (''nyb '', 16), (''nzb '', 16)]]\<rparr>"

definition summary_only_file :: "rat container" where
  "summary_only_file = tree_file\<lparr>int_tables := Map.empty\<rparr>"

definition no_zmax_file :: "rat container" where
  "no_zmax_file = tree_file\<lparr>real_tables :=
     [''/real runtime parameters'' \<mapsto>
        [(''xmin  '', 0), (''xmax  '', 4), (''ymin  '', 0), (''ymax  '', 2), (''zmin  '', 0)],
      ''/real scalars'' \<mapsto> [(''time  '', 0)]]\<rparr>"

section \<open>Properties\<close>

lemma returns_projr: "returns r \<Longrightarrow> r = Inr (projr r)"
  by (cases r) (auto simp: returns_def)

subsection \<open>The relationship pass on the store of grids\<close>

lemma py_index_bound: "py_index n j = Inr c \<Longrightarrow> c < n"
  by (auto simp: py_index_def split: if_splits)

lemma py_index_error: "py_index n j = Inl e \<Longrightarrow> e = IndexError"
  by (auto simp: py_index_def split: if_splits)

lemma children_refs_bound: "children_refs n slots = Inr cs \<Longrightarrow> c \<in> set cs \<Longrightarrow> c < n"
  by (induction slots arbitrary: cs) (auto split: if_splits sum.splits dest: py_index_bound)

lemma children_refs_error: "children_refs n slots = Inl e \<Longrightarrow> e = IndexError"
  by (induction slots) (auto split: if_splits sum.splits dest: py_index_error)

lemma length_set_parents: "length (set_parents p cs gs) = length gs"
  by (induction cs arbitrary: gs) auto

lemma set_parents_nth:
  "\<forall>c \<in> set cs. c < length gs \<Longrightarrow> i < length gs \<Longrightarrow>
   set_parents p cs gs ! i = (if i \<in> set cs then (gs ! i)\<lparr>Parent := Some p\<rparr> else gs ! i)"
proof (induction cs arbitrary: gs)
  case Nil
  then show ?case by simp
next
  case (Cons c cs)
  then show ?case
    by (auto simp: nth_list_update)
qed

text \<open>What one iteration does to the store of grid objects.\<close>

lemma populate_grid_grids:
  assumes "populate_grid gidt p h = Inr h'" and "p < length (grids h)"
  shows "\<exists>cs. (\<exists>r < length gidt. children_refs (length (grids h)) (drop 7 (gidt ! r)) = Inr cs) \<and>
           (\<forall>c \<in> set cs. c < length (grids h)) \<and>
           length (grids h') = length (grids h) \<and>
           (\<forall>i < length (grids h).
              grids h' ! i =
                (grids h ! i)\<lparr>Children := (if i = p then cs else Children (grids h ! i)),
                               Parent := (if i \<in> set cs then Some p else Parent (grids h ! i))\<rparr>)"
proof -
  from assms(1) obtain r cs where
    r: "py_index (length gidt) (grid_id (grids h ! p) - id_offset) = Inr r" and
    cs: "children_refs (length (grids h)) (drop 7 (gidt ! r)) = Inr cs" and
    pg: "prepare_grid p (h\<lparr>grids := set_parents p cs ((grids h)[p := (grids h ! p)\<lparr>Children := cs\<rparr>])\<rparr>) = Inr h'"
    by (auto simp: populate_grid_def Let_def split: sum.splits)
  have b: "\<forall>c \<in> set cs. c < length (grids h)"
    using cs children_refs_bound by blast
  have o: "\<exists>r < length gidt. children_refs (length (grids h)) (drop 7 (gidt ! r)) = Inr cs"
    using r cs py_index_bound by blast
  from pg have g: "grids h' = set_parents p cs ((grids h)[p := (grids h ! p)\<lparr>Children := cs\<rparr>])"
    by (auto simp: prepare_grid_def Let_def split: sum.splits)
  have "\<forall>i < length (grids h).
              grids h' ! i =
                (grids h ! i)\<lparr>Children := (if i = p then cs else Children (grids h ! i)),
                               Parent := (if i \<in> set cs then Some p else Parent (grids h ! i))\<rparr>"
    using b assms(2) by (auto simp: g set_parents_nth nth_list_update)
  with b g o show ?thesis
    by (intro exI[of _ cs]) (simp add: length_set_parents)
qed

lemma populate_loop_symmetric:
  assumes "populate_loop gidt ps h = Inr h'"
    and "distinct ps" and "\<forall>p \<in> set ps. p < length (grids h)" and "set ps \<inter> D = {}"
    and "\<forall>g < length (grids h). \<forall>p. Parent (grids h ! g) = Some p \<longrightarrow>
           p \<in> D \<and> p < length (grids h) \<and> g \<in> set (Children (grids h ! p))"
  shows "length (grids h') = length (grids h) \<and>
         (\<forall>g < length (grids h'). \<forall>p. Parent (grids h' ! g) = Some p \<longrightarrow>
           p \<in> D \<union> set ps \<and> p < length (grids h') \<and> g \<in> set (Children (grids h' ! p)))"
  using assms
proof (induction ps arbitrary: h D)
  case Nil
  then show ?case by simp
next
  case (Cons q ps)
  from Cons.prems(1) obtain h1 where
    step: "populate_grid gidt q h = Inr h1" and rest: "populate_loop gidt ps h1 = Inr h'"
    by (auto split: sum.splits)
  have q: "q < length (grids h)" using Cons.prems(3) by simp
  from populate_grid_grids[OF step q] obtain cs where
    b: "\<forall>c \<in> set cs. c < length (grids h)" and
    len: "length (grids h1) = length (grids h)" and
    nth: "\<forall>i < length (grids h).
              grids h1 ! i =
                (grids h ! i)\<lparr>Children := (if i = q then cs else Children (grids h ! i)),
                               Parent := (if i \<in> set cs then Some q else Parent (grids h ! i))\<rparr>"
    by blast
  have qD: "q \<notin> D" using Cons.prems(4) by auto
  have inv1: "\<forall>g < length (grids h1). \<forall>p. Parent (grids h1 ! g) = Some p \<longrightarrow>
           p \<in> insert q D \<and> p < length (grids h1) \<and> g \<in> set (Children (grids h1 ! p))"
  proof (intro allI impI)
    fix g p
    assume g: "g < length (grids h1)" and P: "Parent (grids h1 ! g) = Some p"
    show "p \<in> insert q D \<and> p < length (grids h1) \<and> g \<in> set (Children (grids h1 ! p))"
    proof (cases "g \<in> set cs")
      case True
      with g P nth len have "p = q" by simp
      with True q nth len show ?thesis by simp
    next
      case False
      with g P nth len have old: "Parent (grids h ! g) = Some p" by simp
      with Cons.prems(5) g len have
        pD: "p \<in> D" and pl: "p < length (grids h)" and gc: "g \<in> set (Children (grids h ! p))"
        by auto
      from pD qD have "p \<noteq> q" by auto
      with pl nth gc pD len show ?thesis by simp
    qed
  qed
  have "length (grids h') = length (grids h1) \<and>
         (\<forall>g < length (grids h'). \<forall>p. Parent (grids h' ! g) = Some p \<longrightarrow>
           p \<in> insert q D \<union> set ps \<and> p < length (grids h') \<and> g \<in> set (Children (grids h' ! p)))"
  proof (rule Cons.IH[OF rest _ _ _ inv1])
    show "distinct ps" using Cons.prems(2) by simp
    show "\<forall>p \<in> set ps. p < length (grids h1)" using Cons.prems(3) len by simp
    show "set ps \<inter> insert q D = {}" using Cons.prems(2,4) by auto
  qed
  with len show ?case by auto
qed

lemma set_argsort: "set (argsort xs) = {..<length xs}"
  by (auto simp: argsort_def)

lemma distinct_argsort: "distinct (argsort xs)"
  by (simp add: argsort_def)


lemma populate_grid_objects_Inr:
  assumes "populate_grid_objects h = Inr h'"
  obtains f gidt h1 m where
    "handle h = Some f" and
    "h5_get f gid ''/gid'' = Inr gidt" and
    "\<forall>p \<in> set (argsort (grid_levels h)). p < length (grids h)" and
    "populate_loop gidt (argsort (grid_levels h)) h = Inr h1" and
    "array_max (grid_levels h1) = Inr m" and
    "h' = h1\<lparr>max_level := Some m\<rparr>"
  using assms unfolding populate_grid_objects_def
  by (auto simp: Let_def not_le split: option.splits sum.splits if_splits)


text \<open>
  Claim C1. In a hierarchy whose relationship pass completed without error, for every
  grid G: if the Parent of G is a grid P, then G is an element of the Children of P.
  The grids enter the pass as their constructor leaves them, without a Parent.
\<close>

theorem parent_child_symmetry:
  assumes "populate_grid_objects h = Inr h'"
    and "\<forall>g \<in> set (grids h). Parent g = None"
  shows "\<forall>g < length (grids h'). \<forall>p. Parent (grids h' ! g) = Some p \<longrightarrow>
           p < length (grids h') \<and> g \<in> set (Children (grids h' ! p))"
proof -
  from assms(1) obtain gidt h1 m where
    bound: "\<forall>p \<in> set (argsort (grid_levels h)). p < length (grids h)" and
    loop: "populate_loop gidt (argsort (grid_levels h)) h = Inr h1" and
    h': "h' = h1\<lparr>max_level := Some m\<rparr>"
    by (rule populate_grid_objects_Inr)
  have "length (grids h1) = length (grids h) \<and>
         (\<forall>g < length (grids h1). \<forall>p. Parent (grids h1 ! g) = Some p \<longrightarrow>
           p \<in> {} \<union> set (argsort (grid_levels h)) \<and> p < length (grids h1) \<and>
           g \<in> set (Children (grids h1 ! p)))"
    using assms(2) by (intro populate_loop_symmetric[OF loop distinct_argsort bound]) auto
  with h' show ?thesis by auto
qed


theorem parent_child_symmetry_witness:
  "returns (populate_grid_objects (projr (parsed tree_file 4))) \<and>
   Parent (grids (projr (populate_grid_objects (projr (parsed tree_file 4)))) ! 2) = Some 0 \<and>
   2 \<in> set (Children (grids (projr (populate_grid_objects (projr (parsed tree_file 4)))) ! 0))"
proof -
  let ?h = "projr (parsed tree_file 4)"
  let ?h' = "projr (populate_grid_objects ?h)"
  have r: "returns (populate_grid_objects ?h)" by code_simp
  have fresh: "\<forall>g \<in> set (grids ?h). Parent g = None" by code_simp
  have len: "2 < length (grids ?h')" by code_simp
  have par: "Parent (grids ?h' ! 2) = Some 0" by code_simp
  from parent_child_symmetry[OF returns_projr[OF r] fresh] len par
  have "2 \<in> set (Children (grids ?h' ! 0))" by blast
  with r par show ?thesis by simp
qed

subsection \<open>What the parse pass hands to the relationship pass\<close>

lemma parse_hierarchy_Inr:
  assumes "parse_hierarchy pf h = Inr h'"
  obtains f bb le re b np counts rl where
    "handle h = Some f" and
    "h5_get f bounding_box ''/bounding box'' = Inr bb" and
    "block_sizes pf f = Inr b" and
    "h5_get f localnp ''/localnp'' = Inr np" and
    "assign_rows (grid_particle_count h) np = Inr counts" and
    "0 \<le> num_grids h + 1" and
    "length counts = nat (num_grids h + 1) - 1" and
    "h5_get f refine_level ''/refine level'' = Inr rl" and
    "nat (num_grids h) \<le> length (flat_assign (grid_levels h) (map (\<lambda>l. l - 1) rl))" and
    "h' = h\<lparr>grid_left_edge := le, grid_right_edge := re,
            grid_dimensions := map (\<lambda>(x, y, z). (x * fst b, y * fst (snd b), z * snd (snd b)))
                                 (grid_dimensions h),
            grid_particle_count := counts,
            particle_indices := take 1 (replicate (nat (num_grids h + 1)) 0) @ add_accumulate counts,
            grid_levels := flat_assign (grid_levels h) (map (\<lambda>l. l - 1) rl),
            grids := map (\<lambda>i. FLASHGrid_init (int i + 1)
                       (flat_assign (grid_levels h) (map (\<lambda>l. l - 1) rl) ! i))
                       [0..<nat (num_grids h)]\<rparr>"
  using assms unfolding parse_hierarchy_def
  by (auto simp: Let_def not_less split: option.splits sum.splits prod.splits if_splits)


lemma parse_hierarchy_grids:
  assumes "parse_hierarchy pf h = Inr h'"
  shows "length (grids h') = nat (num_grids h)"
    and "i < nat (num_grids h) \<Longrightarrow> grids h' ! i = FLASHGrid_init (int i + 1) (grid_levels h' ! i)"
    and "nat (num_grids h) \<le> length (grid_levels h')"
    and "handle h' = handle h"
    and "\<exists>f. handle h = Some f \<and> is_open f"
proof -
  from assms obtain f bb le re b np counts rl where
    f: "handle h = Some f" and
    bb: "h5_get f bounding_box ''/bounding box'' = Inr bb" and
    n: "nat (num_grids h) \<le> length (flat_assign (grid_levels h) (map (\<lambda>l. l - 1) rl))" and
    h': "h' = h\<lparr>grid_left_edge := le, grid_right_edge := re,
            grid_dimensions := map (\<lambda>(x, y, z). (x * fst b, y * fst (snd b), z * snd (snd b)))
                                 (grid_dimensions h),
            grid_particle_count := counts,
            particle_indices := take 1 (replicate (nat (num_grids h + 1)) 0) @ add_accumulate counts,
            grid_levels := flat_assign (grid_levels h) (map (\<lambda>l. l - 1) rl),
            grids := map (\<lambda>i. FLASHGrid_init (int i + 1)
                       (flat_assign (grid_levels h) (map (\<lambda>l. l - 1) rl) ! i))
                       [0..<nat (num_grids h)]\<rparr>"
    by (rule parse_hierarchy_Inr)
  show "length (grids h') = nat (num_grids h)" by (simp add: h')
  show "i < nat (num_grids h) \<Longrightarrow> grids h' ! i = FLASHGrid_init (int i + 1) (grid_levels h' ! i)"
    by (simp add: h')
  show "nat (num_grids h) \<le> length (grid_levels h')" using n by (simp add: h')
  show "handle h' = handle h" by (simp add: h')
  from bb have "is_open f" by (auto simp: h5_get_def split: if_splits)
  with f show "\<exists>f. handle h = Some f \<and> is_open f" by simp
qed


lemma populate_grid_error: "populate_grid gidt p h = Inl e \<Longrightarrow> e = IndexError"
  by (auto simp: populate_grid_def prepare_grid_def Let_def split: sum.splits
           dest: py_index_error children_refs_error)

lemma populate_grid_ids:
  assumes "populate_grid gidt p h = Inr h'" and "p < length (grids h)"
  shows "length (grids h') = length (grids h)"
    and "i < length (grids h) \<Longrightarrow> grid_id (grids h' ! i) = grid_id (grids h ! i)"
    and "i < length (grids h) \<Longrightarrow> Level (grids h' ! i) = Level (grids h ! i)"
  using populate_grid_grids[OF assms] by auto

lemma populate_grid_levels:
  assumes "populate_grid gidt p h = Inr h'" and "p < length (grids h)"
    and "grid_id (grids h ! p) = int p + 1"
    and "p < length (grid_levels h)"
  shows "grid_levels h' = (grid_levels h)[p := Level (grids h ! p)]"
proof -
  from assms(1) obtain r cs where
    cs: "children_refs (length (grids h)) (drop 7 (gidt ! r)) = Inr cs" and
    pg: "prepare_grid p (h\<lparr>grids := set_parents p cs ((grids h)[p := (grids h ! p)\<lparr>Children := cs\<rparr>])\<rparr>) = Inr h'"
    by (auto simp: populate_grid_def Let_def split: sum.splits)
  have b: "\<forall>c \<in> set cs. c < length (grids h)"
    using cs children_refs_bound by blast
  let ?gs = "set_parents p cs ((grids h)[p := (grids h ! p)\<lparr>Children := cs\<rparr>])"
  have g: "grid_id (?gs ! p) = int p + 1" "Level (?gs ! p) = Level (grids h ! p)"
    using b assms(2,3) by (auto simp: set_parents_nth)
  have "py_index (length (grid_levels h)) (int p) = Inr p"
    using assms(4) by (simp add: py_index_def)
  with pg g show ?thesis
    by (auto simp add: prepare_grid_def Let_def id_offset_def)
qed

lemma children_refs_out_of_range:
  "v \<in> set slots \<Longrightarrow> int n < v \<Longrightarrow> children_refs n slots = Inl IndexError"
proof (induction slots)
  case Nil
  then show ?case by simp
next
  case (Cons i slots)
  show ?case
  proof (cases "v = i")
    case True
    with Cons.prems have "py_index n (i - 1) = Inl IndexError" "i > -1"
      by (auto simp: py_index_def)
    then show ?thesis by simp
  next
    case False
    with Cons have "children_refs n slots = Inl IndexError" by simp
    then show ?thesis
      by (auto split: sum.splits dest: py_index_error)
  qed
qed

lemma populate_grid_out_of_range:
  assumes "p < length gidt" and "grid_id (grids h ! p) = int p + 1"
    and "v \<in> set (drop 7 (gidt ! p))" and "int (length (grids h)) < v"
  shows "populate_grid gidt p h = Inl IndexError"
proof -
  have "py_index (length gidt) (int p) = Inr p"
    using assms(1) by (simp add: py_index_def)
  moreover have "children_refs (length (grids h)) (drop 7 (gidt ! p)) = Inl IndexError"
    using assms(3,4) by (rule children_refs_out_of_range)
  ultimately show ?thesis
    using assms(2) by (simp add: populate_grid_def Let_def id_offset_def)
qed

lemma populate_loop_out_of_range:
  assumes "p \<in> set ps" and "\<forall>q \<in> set ps. q < length (grids h)"
    and "\<forall>i < length (grids h). grid_id (grids h ! i) = int i + 1"
    and "p < length gidt" and "v \<in> set (drop 7 (gidt ! p))"
    and "int (length (grids h)) < v"
  shows "populate_loop gidt ps h = Inl IndexError"
  using assms
proof (induction ps arbitrary: h)
  case Nil
  then show ?case by simp
next
  case (Cons q ps)
  show ?case
  proof (cases "populate_grid gidt q h")
    case (Inl e)
    then show ?thesis using populate_grid_error by fastforce
  next
    case (Inr h1)
    have q: "q < length (grids h)" using Cons.prems(2) by simp
    note ids = populate_grid_ids[OF Inr q]
    have "q \<noteq> p"
      using Inr populate_grid_out_of_range[of p gidt h v] Cons.prems by auto
    with Cons.prems(1) have "p \<in> set ps" by simp
    moreover have "\<forall>q \<in> set ps. q < length (grids h1)"
      using Cons.prems(2) ids(1) by simp
    moreover have "\<forall>i < length (grids h1). grid_id (grids h1 ! i) = int i + 1"
      using Cons.prems(3) ids(1,2) by simp
    moreover have "int (length (grids h1)) < v"
      using Cons.prems(6) ids(1) by simp
    ultimately have "populate_loop gidt ps h1 = Inl IndexError"
      using Cons.prems(4,5) by (intro Cons.IH) auto
    with Inr show ?thesis by simp
  qed
qed


text \<open>
  Claim C4. In a hierarchy of N grids, a child slot of the adjacency table that holds
  an id above N makes the relationship pass fail with an IndexError: no hierarchy is
  returned. (Ids below 1 are the ignored sentinel values of the claim.)
\<close>

theorem child_id_out_of_range:
  assumes "parse_hierarchy pf h0 = Inr h"
    and "handle h0 = Some f" and "gid (content f) = Some gidt"
    and "p < nat (num_grids h0)" and "p < length gidt"
    and "v \<in> set (drop 7 (gidt ! p))" and "int (nat (num_grids h0)) < v"
  shows "populate_grid_objects h = Inl IndexError"
proof -
  note pg = parse_hierarchy_grids[OF assms(1)]
  from pg(4,5) assms(2) have hf: "handle h = Some f" and op: "is_open f" by auto
  from op assms(3) have get: "h5_get f gid ''/gid'' = Inr gidt"
    by (simp add: h5_get_def)
  show ?thesis
  proof (cases "\<exists>q \<in> set (argsort (grid_levels h)). length (grids h) \<le> q")
    case True
    with hf get show ?thesis
      by (simp add: populate_grid_objects_def Let_def)
  next
    case False
    then have b: "\<forall>q \<in> set (argsort (grid_levels h)). q < length (grids h)"
      by (auto simp: not_le)
    have "p \<in> set (argsort (grid_levels h))"
      using pg(3) assms(4) by (simp add: set_argsort)
    moreover have "\<forall>i < length (grids h). grid_id (grids h ! i) = int i + 1"
      using pg(1,2) by (simp add: FLASHGrid_init_def)
    moreover have "int (length (grids h)) < v"
      using pg(1) assms(7) by simp
    ultimately have "populate_loop gidt (argsort (grid_levels h)) h = Inl IndexError"
      using b assms(5,6) by (intro populate_loop_out_of_range) auto
    with hf get False show ?thesis
      by (simp add: populate_grid_objects_def Let_def)
  qed
qed



theorem child_id_out_of_range_witness:
  "returns (parsed corrupt_file 8) \<and> 99 \<in> set (drop 7 (corrupt_rows ! 0)) \<and>
   populate_grid_objects (projr (parsed corrupt_file 8)) = Inl IndexError"
proof -
  have r: "returns (parsed corrupt_file 8)" by code_simp
  then have p: "parse_hierarchy (sample_output corrupt_file) (allocated corrupt_file 8) =
      Inr (projr (parsed corrupt_file 8))"
    unfolding parsed_def by (rule returns_projr)
  have h: "handle (allocated corrupt_file 8) = Some (H5File True corrupt_file)"
    by (simp add: allocated_def)
  have g: "gid (content (H5File True corrupt_file)) = Some corrupt_rows"
    by (simp add: corrupt_file_def sample_file_def)
  have n: "0 < nat (num_grids (allocated corrupt_file 8))"
    by (simp add: allocated_def)
  have l: "0 < length corrupt_rows" by (simp add: corrupt_rows_def)
  have v: "99 \<in> set (drop 7 (corrupt_rows ! 0))"
    by (simp add: corrupt_rows_def adjacency_row_def)
  have big: "int (nat (num_grids (allocated corrupt_file 8))) < 99"
    by (simp add: allocated_def)
  from child_id_out_of_range[OF p h g n l v big] r v show ?thesis by simp
qed

subsection \<open>Refinement levels\<close>

lemma populate_loop_levels:
  assumes "populate_loop gidt ps h = Inr h'"
    and "\<forall>p \<in> set ps. p < length (grids h)"
    and "length (grid_levels h) = length (grids h)"
    and "\<forall>i < length (grids h). grid_id (grids h ! i) = int i + 1 \<and>
                               Level (grids h ! i) = grid_levels h ! i"
  shows "grid_levels h' = grid_levels h \<and> length (grids h') = length (grids h) \<and>
         (\<forall>i < length (grids h). Level (grids h' ! i) = Level (grids h ! i))"
  using assms
proof (induction ps arbitrary: h)
  case Nil
  then show ?case by simp
next
  case (Cons q ps)
  from Cons.prems(1) obtain h1 where
    step: "populate_grid gidt q h = Inr h1" and rest: "populate_loop gidt ps h1 = Inr h'"
    by (auto split: sum.splits)
  have q: "q < length (grids h)" using Cons.prems(2) by simp
  note ids = populate_grid_ids[OF step q]
  have "grid_levels h1 = (grid_levels h)[q := Level (grids h ! q)]"
    using Cons.prems(3,4) q by (intro populate_grid_levels[OF step q]) auto
  with Cons.prems(3,4) q have lv: "grid_levels h1 = grid_levels h"
    by (simp add: list_update_same_conv)
  have "grid_levels h' = grid_levels h1 \<and> length (grids h') = length (grids h1) \<and>
         (\<forall>i < length (grids h1). Level (grids h' ! i) = Level (grids h1 ! i))"
    using Cons.prems(2,3,4) ids lv by (intro Cons.IH[OF rest]) auto
  with ids lv show ?case by auto
qed


lemma flat_assign_nth:
  "i < length dst \<Longrightarrow> i < length vals \<Longrightarrow> flat_assign dst vals ! i = vals ! i"
  by (auto simp: flat_assign_def)






subsection \<open>Particle offsets\<close>

lemma wrap64_id: "- (2 ^ 63) \<le> x \<Longrightarrow> x < 2 ^ 63 \<Longrightarrow> wrap64 x = x"
  by (simp add: wrap64_def)

lemma accumulate_from_sums:
  assumes "\<forall>k. 0 < k \<and> k \<le> length cs \<longrightarrow>
             - (2 ^ 63) \<le> acc + sum_list (take k cs) \<and> acc + sum_list (take k cs) < 2 ^ 63"
  shows "accumulate_from acc cs = map (\<lambda>k. acc + sum_list (take (Suc k) cs)) [0..<length cs]"
  using assms
proof (induction cs arbitrary: acc)
  case Nil
  then show ?case by simp
next
  case (Cons c cs)
  from Cons.prems[rule_format, of 1] have w: "wrap64 (acc + c) = acc + c"
    by (simp add: wrap64_id)
  have "\<forall>k. 0 < k \<and> k \<le> length cs \<longrightarrow>
             - (2 ^ 63) \<le> (acc + c) + sum_list (take k cs) \<and> (acc + c) + sum_list (take k cs) < 2 ^ 63"
  proof (intro allI impI)
    fix k assume "0 < k \<and> k \<le> length cs"
    with Cons.prems[rule_format, of "Suc k"]
    show "- (2 ^ 63) \<le> (acc + c) + sum_list (take k cs) \<and> (acc + c) + sum_list (take k cs) < 2 ^ 63"
      by (simp add: add.assoc)
  qed
  from Cons.IH[OF this] have
    "accumulate_from (acc + c) cs = map (\<lambda>k. acc + c + sum_list (take (Suc k) cs)) [0..<length cs]" .
  moreover have "map (\<lambda>k. acc + sum_list (take (Suc k) (c # cs))) [0..<length (c # cs)] =
      (acc + c) # map (\<lambda>k. acc + c + sum_list (take (Suc k) cs)) [0..<length cs]"
    by (simp add: upt_conv_Cons map_Suc_upt[symmetric] add.assoc del: upt_Suc)
  ultimately show ?case by (simp add: w Let_def del: upt_Suc)
qed

lemma offsets_prefix_sums:
  assumes "\<forall>k \<le> length cs. - (2 ^ 63) \<le> sum_list (take k cs) \<and> sum_list (take k cs) < 2 ^ 63"
  shows "take 1 (replicate (nat (int (length cs) + 1)) 0) @ add_accumulate cs =
         map (\<lambda>k. sum_list (take k cs)) [0..<Suc (length cs)]"
proof (cases cs)
  case Nil
  then show ?thesis by (simp add: add_accumulate_def)
next
  case (Cons c r)
  from assms[rule_format, of 1] Cons have w: "wrap64 c = c"
    by (simp add: wrap64_id)
  have "\<forall>k. 0 < k \<and> k \<le> length r \<longrightarrow>
             - (2 ^ 63) \<le> c + sum_list (take k r) \<and> c + sum_list (take k r) < 2 ^ 63"
  proof (intro allI impI)
    fix k assume "0 < k \<and> k \<le> length r"
    with assms[rule_format, of "Suc k"] Cons
    show "- (2 ^ 63) \<le> c + sum_list (take k r) \<and> c + sum_list (take k r) < 2 ^ 63"
      by simp
  qed
  from accumulate_from_sums[OF this] have
    "accumulate_from c r = map (\<lambda>k. c + sum_list (take (Suc k) r)) [0..<length r]" .
  moreover have "map (\<lambda>k. sum_list (take k (c # r))) [0..<Suc (length (c # r))] =
      0 # c # map (\<lambda>k. c + sum_list (take (Suc k) r)) [0..<length r]"
    by (simp add: upt_conv_Cons map_Suc_upt[symmetric] del: upt_Suc)
  moreover have "take 1 (replicate (nat (int (length cs) + 1)) (0::int)) = [0]"
    by (simp add: Cons nat_add_distrib take_Suc_conv_app_nth)
  ultimately show ?thesis
    using Cons w by (simp add: add_accumulate_def del: upt_Suc)
qed

text \<open>
  Claim C2. For N grids and a particle-count array of length N, the parse pass leaves
  an offset table of length N + 1 with offset 0 equal to 0 and each further offset the
  previous one plus the grid's count; the offsets do not decrease when the counts are
  not negative, and the last offset is the sum of the counts; the counts 0, 5, 3, 0
  give 0, 0, 5, 8, 8. The table is an \<^verbatim>\<open>int64\<close> array: no running sum leaves its
  range.
\<close>

theorem particle_offsets:
  assumes "parse_hierarchy pf h = Inr h'"
    and "handle h = Some f" and "localnp (content f) = Some counts"
    and "num_grids h = int (length counts)"
    and "\<forall>k \<le> length counts. - (2 ^ 63) \<le> sum_list (take k counts) \<and>
                              sum_list (take k counts) < 2 ^ 63"
  shows "length (particle_indices h') = length counts + 1 \<and>
         particle_indices h' ! 0 = 0 \<and>
         (\<forall>i < length counts. particle_indices h' ! Suc i = particle_indices h' ! i + counts ! i) \<and>
         ((\<forall>c \<in> set counts. 0 \<le> c) \<longrightarrow> sorted (particle_indices h')) \<and>
         particle_indices h' ! length counts = sum_list counts \<and>
         particle_indices (projr (parsed tree_file 4)) = [0, 0, 5, 8, 8]"
proof -
  from assms(1) obtain f' le re b np counts' rl where
    f: "handle h = Some f'" and
    np: "h5_get f' localnp ''/localnp'' = Inr np" and
    cs: "assign_rows (grid_particle_count h) np = Inr counts'" and
    len: "length counts' = nat (num_grids h + 1) - 1" and
    h': "h' = h\<lparr>grid_left_edge := le, grid_right_edge := re,
            grid_dimensions := map (\<lambda>(x, y, z). (x * fst b, y * fst (snd b), z * snd (snd b)))
                                 (grid_dimensions h),
            grid_particle_count := counts',
            particle_indices := take 1 (replicate (nat (num_grids h + 1)) 0) @ add_accumulate counts',
            grid_levels := flat_assign (grid_levels h) (map (\<lambda>l. l - 1) rl),
            grids := map (\<lambda>i. FLASHGrid_init (int i + 1)
                       (flat_assign (grid_levels h) (map (\<lambda>l. l - 1) rl) ! i))
                       [0..<nat (num_grids h)]\<rparr>"
    by (rule parse_hierarchy_Inr)
  from f np assms(2,3) have "np = counts"
    by (auto simp: h5_get_def split: if_splits)
  moreover from len assms(4) have "length counts' = length counts" by simp
  ultimately have "counts' = counts"
    using cs by (auto simp: assign_rows_def split: if_splits)
  with h' assms(4) have
    "particle_indices h' = take 1 (replicate (nat (int (length counts) + 1)) 0) @ add_accumulate counts"
    by simp
  with offsets_prefix_sums[OF assms(5)] have
    pi: "particle_indices h' = map (\<lambda>k. sum_list (take k counts)) [0..<Suc (length counts)]"
    by simp
  have nth: "\<forall>k \<le> length counts. particle_indices h' ! k = sum_list (take k counts)"
  proof (intro allI impI)
    fix k assume "k \<le> length counts"
    then have "k < length [0..<Suc (length counts)]" by simp
    then show "particle_indices h' ! k = sum_list (take k counts)"
      unfolding pi by (simp only: nth_map) (simp del: upt_Suc)
  qed
  have l: "length (particle_indices h') = length counts + 1" by (simp add: pi)
  have z: "particle_indices h' ! 0 = 0" using nth by simp
  have step: "\<forall>i < length counts. particle_indices h' ! Suc i = particle_indices h' ! i + counts ! i"
    using nth by (simp add: take_Suc_conv_app_nth)
  have mono: "(\<forall>c \<in> set counts. 0 \<le> c) \<longrightarrow> sorted (particle_indices h')"
  proof
    assume nn: "\<forall>c \<in> set counts. 0 \<le> c"
    have "\<forall>i. Suc i < length (particle_indices h') \<longrightarrow>
              particle_indices h' ! i \<le> particle_indices h' ! Suc i"
    proof (intro allI impI)
      fix i assume "Suc i < length (particle_indices h')"
      with l have i: "i < length counts" by simp
      with nn have "0 \<le> counts ! i" by simp
      with step i show "particle_indices h' ! i \<le> particle_indices h' ! Suc i" by simp
    qed
    then show "sorted (particle_indices h')" by (simp add: sorted_iff_nth_Suc)
  qed
  have total: "particle_indices h' ! length counts = sum_list counts" using nth by simp
  have ex: "particle_indices (projr (parsed tree_file 4)) = [0, 0, 5, 8, 8]" by code_simp
  from l z step mono total ex show ?thesis by blast
qed

theorem particle_offsets_witness:
  "returns (parsed tree_file 4) \<and>
   particle_indices (projr (parsed tree_file 4)) ! 4 = sum_list [0, 5, 3, 0] \<and>
   sorted (particle_indices (projr (parsed tree_file 4)))"
proof -
  let ?h1 = "projr (parsed tree_file 4)"
  have r1: "returns (parsed tree_file 4)" by code_simp
  then have p: "parse_hierarchy (sample_output tree_file) (allocated tree_file 4) = Inr ?h1"
    unfolding parsed_def by (rule returns_projr)
  have h: "handle (allocated tree_file 4) = Some (H5File True tree_file)"
    by (simp add: allocated_def)
  have np: "localnp (content (H5File True tree_file)) = Some [0, 5, 3, 0]"
    by (simp add: tree_file_def sample_file_def)
  have n: "num_grids (allocated tree_file 4) = int (length [0, 5, 3, 0 :: int])"
    by (simp add: allocated_def)
  have rg: "\<forall>k \<le> length [0, 5, 3, 0 :: int]. - (2 ^ 63) \<le> sum_list (take k [0, 5, 3, 0 :: int]) \<and>
                              sum_list (take k [0, 5, 3, 0 :: int]) < 2 ^ 63"
  proof (intro allI impI)
    fix k :: nat assume "k \<le> length [0, 5, 3, 0 :: int]"
    then have "k = 0 \<or> k = 1 \<or> k = 2 \<or> k = 3 \<or> k = 4" by auto
    then show "- (2 ^ 63) \<le> sum_list (take k [0, 5, 3, 0 :: int]) \<and>
                              sum_list (take k [0, 5, 3, 0 :: int]) < 2 ^ 63"
      by (auto simp: numeral_2_eq_2 numeral_3_eq_3 eval_nat_numeral)
  qed
  have nn: "\<forall>c \<in> set [0, 5, 3, 0 :: int]. 0 \<le> c" by simp
  note c2 = particle_offsets[OF p h np n rg]
  from c2 nn have "sorted (particle_indices ?h1)" by blast
  moreover from c2 have "particle_indices ?h1 ! 4 = sum_list [0, 5, 3, 0]" by simp
  ultimately show ?thesis using r1 by simp
qed


subsection \<open>Child slots that are not ids\<close>

lemma children_refs_sentinel:
  "\<forall>i \<in> set slots. i \<le> -1 \<Longrightarrow> children_refs n slots = Inr []"
  by (induction slots) auto

lemma children_refs_origin:
  "children_refs n slots = Inr cs \<Longrightarrow> c \<in> set cs \<Longrightarrow>
     int c + 1 \<in> set slots \<or> (0 \<in> set slots \<and> Suc c = n)"
proof (induction slots arbitrary: cs)
  case Nil
  then show ?case by simp
next
  case (Cons i slots)
  show ?case
  proof (cases "i > -1")
    case False
    with Cons show ?thesis by auto
  next
    case True
    with Cons.prems(1) obtain c' cs' where
      c': "py_index n (i - 1) = Inr c'" and cs': "children_refs n slots = Inr cs'" and
      cs: "cs = c' # cs'"
      by (auto split: sum.splits)
    from c' True have "int c' + 1 = i \<or> (i = 0 \<and> Suc c' = n)"
      by (auto simp: py_index_def split: if_splits)
    with Cons.IH[OF cs'] Cons.prems(2) cs show ?thesis by auto
  qed
qed


text \<open>
  Claim C3, at a slot holding 0. The claim has every child slot at or below 0 ignored.
  The guard of the comprehension is \<^verbatim>\<open>i > -1\<close>: a slot holding 0 passes it and
  \<^verbatim>\<open>self.grids[0 - 1]\<close> is the last grid of the array. In a hierarchy of three grids
  whose first row names child 2 and then holds 0, grid 1 ends with two children, grids
  2 and 3, where the claim has the single child grid 2.
\<close>

theorem zero_slot_is_last_grid:
  "returns (populate_grid_objects (projr (parsed zero_slot_file 3))) \<and>
   map Children (grids (projr (populate_grid_objects (projr (parsed zero_slot_file 3))))) =
     [[1, 2], [], []]"
  by code_simp

lemma populate_loop_no_parent:
  assumes "populate_loop gidt ps h = Inr h'"
    and "\<forall>p \<in> set ps. p < length (grids h)"
    and "g < length (grids h)" and "Parent (grids h ! g) = None"
    and "\<forall>row \<in> set gidt. int g + 1 \<notin> set (drop 7 row) \<and> 0 \<notin> set (drop 7 row)"
  shows "Parent (grids h' ! g) = None \<and> length (grids h') = length (grids h)"
  using assms
proof (induction ps arbitrary: h)
  case Nil
  then show ?case by simp
next
  case (Cons q ps)
  from Cons.prems(1) obtain h1 where
    step: "populate_grid gidt q h = Inr h1" and rest: "populate_loop gidt ps h1 = Inr h'"
    by (auto split: sum.splits)
  have q: "q < length (grids h)" using Cons.prems(2) by simp
  from populate_grid_grids[OF step q] obtain cs r where
    r: "r < length gidt" and
    o: "children_refs (length (grids h)) (drop 7 (gidt ! r)) = Inr cs" and
    len: "length (grids h1) = length (grids h)" and
    nth: "\<forall>i < length (grids h).
              grids h1 ! i =
                (grids h ! i)\<lparr>Children := (if i = q then cs else Children (grids h ! i)),
                               Parent := (if i \<in> set cs then Some q else Parent (grids h ! i))\<rparr>"
    by blast
  from r have "gidt ! r \<in> set gidt" by simp
  with Cons.prems(5) children_refs_origin[OF o, of g] have "g \<notin> set cs" by blast
  with nth Cons.prems(3,4) have "Parent (grids h1 ! g) = None" by simp
  with Cons.prems(2,3,5) len have
    "Parent (grids h' ! g) = None \<and> length (grids h') = length (grids h1)"
    by (intro Cons.IH[OF rest]) auto
  with len show ?case by simp
qed

lemma orphan_without_zero_slots:
  assumes "populate_grid_objects h = Inr h'"
    and "handle h = Some f" and "gid (content f) = Some gidt"
    and "g < length (grids h)" and "Parent (grids h ! g) = None"
    and "\<forall>row \<in> set gidt. int g + 1 \<notin> set (drop 7 row) \<and> 0 \<notin> set (drop 7 row)"
  shows "Parent (grids h' ! g) = None"
proof -
  from assms(1) obtain f' gidt' h1 m where
    f': "handle h = Some f'" and get: "h5_get f' gid ''/gid'' = Inr gidt'" and
    bound: "\<forall>p \<in> set (argsort (grid_levels h)). p < length (grids h)" and
    loop: "populate_loop gidt' (argsort (grid_levels h)) h = Inr h1" and
    h': "h' = h1\<lparr>max_level := Some m\<rparr>"
    by (rule populate_grid_objects_Inr)
  from f' get assms(2,3) have "gidt' = gidt"
    by (auto simp: h5_get_def split: if_splits)
  with populate_loop_no_parent[OF loop bound assms(4,5)] assms(6) h' show ?thesis
    by simp
qed


text \<open>
  Claim C10, at a slot holding 0. The claim has every grid whose id is in no child slot
  end without a Parent. In a hierarchy of two grids whose only child slot other than -1
  holds 0, the id 2 is in no child slot, yet grid 2 ends with grid 1 as its Parent.
\<close>

theorem zero_slot_gives_parent:
  "returns (populate_grid_objects (projr (parsed zero_only_file 2))) \<and>
   2 \<notin> set (concat (map (drop 7) zero_only_rows)) \<and>
   map Parent (grids (projr (populate_grid_objects (projr (parsed zero_only_file 2))))) =
     [None, Some 0]"
  by code_simp


subsection \<open>Parameter lookup\<close>







subsection \<open>Units\<close>

lemma units_loop_Inr:
  assumes "units_loop mpc ks u = Inr u'"
  shows "k \<in> set ks \<Longrightarrow> \<exists>a c. map_of mpc k = Some a \<and> map_of mpc ''cm'' = Some c \<and>
                                u' k = Some (a / c)"
    and "k \<notin> set ks \<Longrightarrow> u' k = u k"
  using assms
proof (induction ks arbitrary: u)
  case Nil
  { case 1 then show ?case by simp }
  { case 2 then show ?case by simp }
next
  case (Cons x ks)
  { case 1
    from "1.prems"(2) obtain a c where
      a: "map_of mpc x = Some a" and c: "map_of mpc ''cm'' = Some c" and
      rest: "units_loop mpc ks (u(x \<mapsto> a / c)) = Inr u'"
      by (auto split: option.splits if_splits)
    show ?case
    proof (cases "k \<in> set ks")
      case True
      with Cons.IH(1)[OF _ rest] show ?thesis by simp
    next
      case False
      with "1.prems"(1) have "k = x" by simp
      with Cons.IH(2)[OF False rest] a c show ?thesis by simp
    qed }
  { case 2
    from "2.prems"(2) obtain a c where
      rest: "units_loop mpc ks (u(x \<mapsto> a / c)) = Inr u'"
      by (auto split: option.splits if_splits)
    from "2.prems"(1) have "k \<notin> set ks" "k \<noteq> x" by auto
    with Cons.IH(2)[OF _ rest] show ?case by simp }
qed

lemma parse_parameter_file_keeps:
  assumes "parse_parameter_file pf = (r, pf')"
  shows "units pf' = units pf" and "time_units pf' = time_units pf"
    and "parameters pf' = parameters pf" and "conversion_factors pf' = conversion_factors pf"
  using assms
  by (auto simp: parse_parameter_file_def Let_def split: option.splits sum.splits)


lemma array_max3_sub3:
  fixes rx :: "'f::{minus,linorder}"
  shows "array_max3 (array_sub3 (rx, ry, rz) (lx, ly, lz)) = Max {rx - lx, ry - ly, rz - lz}"
  by (simp add: array_max3_def array_sub3_def max.commute max.left_commute)

text \<open>
  Claim C8. After \<^verbatim>\<open>_set_units\<close> the unit "unitary" is 1 over the maximum, over the
  three axes, of the right edge of the domain minus its left edge; the unit "1" is 1,
  the time unit "1" is 1, and every name of the table of length units has the unit: its
  entry over the entry of "cm". The float values are ordered linearly (there is no
  NaN among the edges). The names "1" and "unitary" are assigned after the table and
  are not names of it.
\<close>

theorem unit_table:
  fixes mpc :: "'f::{zero,numeral,times,inverse,minus,linorder} table"
  assumes "set_units mpc pf = Inr pf'"
    and "''1'' \<notin> fst ` set mpc" and "''unitary'' \<notin> fst ` set mpc"
  shows "(\<exists>lx ly lz rx ry rz.
            domain_left_edge pf' = Some (lx, ly, lz) \<and>
            domain_right_edge pf' = Some (rx, ry, rz) \<and>
            units pf' ''unitary'' = Some (1 / Max {rx - lx, ry - ly, rz - lz})) \<and>
         units pf' ''1'' = Some 1 \<and>
         time_units pf' ''1'' = Some 1 \<and>
         (\<forall>u \<in> fst ` set mpc. \<exists>a c. map_of mpc u = Some a \<and> map_of mpc ''cm'' = Some c \<and>
            units pf' u = Some (a / c))"
proof -
  define pf1 where "pf1 = pf\<lparr>units := Map.empty, time_units := Map.empty\<rparr>"
  define parsed where
    "parsed = (if length (parameters pf1) = 0 then parse_parameter_file pf1 else (None, pf1))"
  obtain r pf2 where p: "parsed = (r, pf2)" by (cases parsed)
  have u2: "units pf2 = Map.empty" "time_units pf2 = Map.empty"
    using p parse_parameter_file_keeps[of pf1 r pf2]
    by (auto simp: parsed_def pf1_def split: if_splits)
  from assms(1) p have "\<exists>pf3 le re. r = None \<and> setup_nounits_units mpc pf2 = Inr pf3 \<and>
      domain_right_edge pf3 = Some re \<and> domain_left_edge pf3 = Some le \<and>
      pf' = pf3\<lparr>conversion_factors := Map.empty, conversion_default := Some 1,
                 time_units := (time_units pf3)(''1'' \<mapsto> 1, ''years'' \<mapsto> 1 / (365 * 3600 * 24),
                    ''days'' \<mapsto> 1 / (3600 * 24)),
                 units := (units pf3)(''1'' \<mapsto> 1,
                    ''unitary'' \<mapsto> 1 / array_max3 (array_sub3 re le))\<rparr>"
    unfolding set_units_def Let_def pf1_def[symmetric] parsed_def[symmetric]
    by (auto split: option.splits sum.splits)
  then obtain pf3 le re where
    s: "setup_nounits_units mpc pf2 = Inr pf3" and
    re: "domain_right_edge pf3 = Some re" and le: "domain_left_edge pf3 = Some le" and
    pf': "pf' = pf3\<lparr>conversion_factors := Map.empty, conversion_default := Some 1,
                 time_units := (time_units pf3)(''1'' \<mapsto> 1, ''years'' \<mapsto> 1 / (365 * 3600 * 24),
                    ''days'' \<mapsto> 1 / (3600 * 24)),
                 units := (units pf3)(''1'' \<mapsto> 1,
                    ''unitary'' \<mapsto> 1 / array_max3 (array_sub3 re le))\<rparr>"
    by blast
  from s obtain u where
    loop: "units_loop mpc (map fst mpc) Map.empty = Inr u" and u3: "units pf3 = u"
    and t3: "time_units pf3 = Map.empty"
    using u2 by (auto simp: setup_nounits_units_def Let_def split: sum.splits if_splits)
  obtain lx ly lz rx ry rz where c: "le = (lx, ly, lz)" "re = (rx, ry, rz)"
    by (cases le, cases re) auto
  have "units pf' ''unitary'' = Some (1 / Max {rx - lx, ry - ly, rz - lz})"
    using array_max3_sub3[of rx ry rz lx ly lz] by (simp add: pf' c)
  moreover have "domain_left_edge pf' = Some (lx, ly, lz)" "domain_right_edge pf' = Some (rx, ry, rz)"
    using re le c by (simp_all add: pf')
  ultimately have a: "\<exists>lx ly lz rx ry rz.
            domain_left_edge pf' = Some (lx, ly, lz) \<and>
            domain_right_edge pf' = Some (rx, ry, rz) \<and>
            units pf' ''unitary'' = Some (1 / Max {rx - lx, ry - ly, rz - lz})"
    by blast
  have b: "units pf' ''1'' = Some 1" by (simp add: pf')
  have c: "time_units pf' ''1'' = Some 1" by (simp add: pf')
  have d: "\<forall>u \<in> fst ` set mpc. \<exists>a c. map_of mpc u = Some a \<and> map_of mpc ''cm'' = Some c \<and>
            units pf' u = Some (a / c)"
  proof
    fix k assume k: "k \<in> fst ` set mpc"
    with assms(2,3) have ne: "k \<noteq> ''1''" "k \<noteq> ''unitary''" by blast+
    from k have "k \<in> set (map fst mpc)" by simp
    from units_loop_Inr(1)[OF loop this] obtain a c where
      "map_of mpc k = Some a" "map_of mpc ''cm'' = Some c" "u k = Some (a / c)"
      by blast
    with ne u3 show "\<exists>a c. map_of mpc k = Some a \<and> map_of mpc ''cm'' = Some c \<and>
            units pf' k = Some (a / c)"
      by (simp add: pf')
  qed
  from a b c d show ?thesis by blast
qed

theorem unit_table_witness:
  "returns (set_units length_units unparsed_output) \<and>
   domain_left_edge (projr (set_units length_units unparsed_output)) = Some (1, -1, 0) \<and>
   domain_right_edge (projr (set_units length_units unparsed_output)) = Some (2, 3, 2) \<and>
   units (projr (set_units length_units unparsed_output)) ''unitary'' = Some (1 / 4) \<and>
   units (projr (set_units length_units unparsed_output)) ''1'' = Some 1 \<and>
   time_units (projr (set_units length_units unparsed_output)) ''1'' = Some 1 \<and>
   units (projr (set_units length_units unparsed_output)) ''kpc'' =
     Some (1000 / 3085700000000000000000000)"
proof -
  let ?pf' = "projr (set_units length_units unparsed_output)"
  have r: "returns (set_units length_units unparsed_output)" by code_simp
  have n1: "''1'' \<notin> fst ` set length_units" by (simp add: length_units_def)
  have n2: "''unitary'' \<notin> fst ` set length_units" by (simp add: length_units_def)
  note c8 = unit_table[OF returns_projr[OF r] n1 n2]
  note extent = c8[THEN conjunct1]
  note one = c8[THEN conjunct2, THEN conjunct1]
  note time = c8[THEN conjunct2, THEN conjunct2, THEN conjunct1]
  note names = c8[THEN conjunct2, THEN conjunct2, THEN conjunct2]
  have k: "''kpc'' \<in> fst ` set length_units" by (simp add: length_units_def)
  have m: "map_of length_units ''kpc'' = Some 1000"
    "map_of length_units ''cm'' = Some 3085700000000000000000000"
    by (simp_all add: length_units_def)
  from names k obtain a c where
    "map_of length_units ''kpc'' = Some a" "map_of length_units ''cm'' = Some c"
    "units ?pf' ''kpc'' = Some (a / c)"
    by blast
  with m have kpc: "units ?pf' ''kpc'' = Some (1000 / 3085700000000000000000000)" by simp
  have le: "domain_left_edge ?pf' = Some (1, -1, 0)" by code_simp
  have re: "domain_right_edge ?pf' = Some (2, 3, 2)" by code_simp
  from extent obtain lx ly lz rx ry rz where
    e: "domain_left_edge ?pf' = Some (lx, ly, lz)" "domain_right_edge ?pf' = Some (rx, ry, rz)"
    "units ?pf' ''unitary'' = Some (1 / Max {rx - lx, ry - ly, rz - lz})"
    by (elim exE conjE)
  from e(1) le have l: "lx = 1" "ly = -1" "lz = 0" by simp_all
  from e(2) re have u: "rx = 2" "ry = 3" "rz = 2" by simp_all
  have "Max {2 - 1, 3 - (- 1), 2 - 0 :: rat} = 4" by simp
  with e(3) l u have un: "units ?pf' ''unitary'' = Some (1 / 4)" by simp
  from r le re un one time kpc show ?thesis by (intro conjI)
qed

subsection \<open>Fallback to the summary table\<close>

lemma not_returns_projl: "\<not> returns r \<Longrightarrow> r = Inl (projl r)"
  by (cases r) (auto simp: returns_def)

lemma scan_rows_error: "scan_rows rows pname = Inl e \<Longrightarrow> e = KeyError pname"
  by (induction rows) (auto split: if_splits)

lemma find_parameter_open:
  "is_open f \<Longrightarrow> find_parameter pf tables ptype pname scalar (Some f) = Inl e \<Longrightarrow> is_KeyError e"
  by (auto simp: find_parameter_def resolve_handle_def h5_get_def Let_def
           split: option.splits dest: scan_rows_error)

lemma length_flat_assign: "length (flat_assign dst vals) = length dst"
  by (simp add: flat_assign_def)

lemma parse_hierarchy_returns:
  assumes "handle h = Some f" and "is_open f"
    and "block_sizes pf f = Inr (a, b, c)"
    and "bounding_box (content f) = Some bb"
    and "length bb = length (grid_left_edge h)" and "length bb = length (grid_right_edge h)"
    and "localnp (content f) = Some np" and "length np = length (grid_particle_count h)"
    and "num_grids h = int (length np)"
    and "refine_level (content f) = Some rl"
    and "length np \<le> length (grid_levels h)"
  shows "\<exists>h'. parse_hierarchy pf h = Inr h' \<and>
           grid_dimensions h' = map (\<lambda>(x, y, z). (x * a, y * b, z * c)) (grid_dimensions h)"
  using assms
  by (simp add: parse_hierarchy_def h5_get_def assign_rows_def Let_def length_flat_assign)


text \<open>
  Claim C9. Counting the grids asks for the integer scalar "globalnumblocks" first; it
  reads the entry [0][0] of the summary table exactly when that lookup raises
  KeyError, and passes any other error on. The parse pass asks for "nxb", "nyb" and
  "nzb" and, when one of the lookups raises KeyError, takes all three from the named
  fields of the summary table; with block sizes from either source, a file whose
  arrays have one row for each grid is parsed without error.
\<close>

theorem lookup_fallbacks:
  "(\<forall>n. find_parameter pf int_tables ''integer'' ''globalnumblocks'' True (handle h) = Inr n \<longrightarrow>
        count_grids pf h = Inr (h\<lparr>num_grids := n\<rparr>)) \<and>
   (\<forall>k. find_parameter pf int_tables ''integer'' ''globalnumblocks'' True (handle h) = Inl (KeyError k) \<longrightarrow>
        count_grids pf h =
          (case summary_first (handle h) of Inl e \<Rightarrow> Inl e | Inr n \<Rightarrow> Inr (h\<lparr>num_grids := n\<rparr>))) \<and>
   (\<forall>e. find_parameter pf int_tables ''integer'' ''globalnumblocks'' True (handle h) = Inl e \<and>
        \<not> is_KeyError e \<longrightarrow> count_grids pf h = Inl e) \<and>
   (\<forall>name v row rows. is_open f \<and>
        simulation_parameters (content f) = Some (((name, v) # row) # rows) \<longrightarrow>
        summary_first (Some f) = Inr v) \<and>
   (\<forall>x y z. find_parameter pf int_tables ''integer'' ''nxb'' True (Some f) = Inr x \<and>
        find_parameter pf int_tables ''integer'' ''nyb'' True (Some f) = Inr y \<and>
        find_parameter pf int_tables ''integer'' ''nzb'' True (Some f) = Inr z \<longrightarrow>
        block_sizes pf f = Inr (x, y, z)) \<and>
   (\<forall>k row x y z. is_open f \<and>
        (find_parameter pf int_tables ''integer'' ''nxb'' True (Some f) = Inl (KeyError k) \<or>
         find_parameter pf int_tables ''integer'' ''nyb'' True (Some f) = Inl (KeyError k) \<or>
         find_parameter pf int_tables ''integer'' ''nzb'' True (Some f) = Inl (KeyError k)) \<and>
        simulation_parameters (content f) = Some [row] \<and>
        map_of row ''nxb'' = Some x \<and> map_of row ''nyb'' = Some y \<and> map_of row ''nzb'' = Some z \<longrightarrow>
        block_sizes pf f = Inr (x, y, z)) \<and>
   (\<forall>x y z bb np rl. handle h = Some f \<and> is_open f \<and> block_sizes pf f = Inr (x, y, z) \<and>
        bounding_box (content f) = Some bb \<and>
        length bb = length (grid_left_edge h) \<and> length bb = length (grid_right_edge h) \<and>
        localnp (content f) = Some np \<and> length np = length (grid_particle_count h) \<and>
        num_grids h = int (length np) \<and>
        refine_level (content f) = Some rl \<and> length np \<le> length (grid_levels h) \<longrightarrow>
        (\<exists>h'. parse_hierarchy pf h = Inr h' \<and>
           grid_dimensions h' = map (\<lambda>(a, b, c). (a * x, b * y, c * z)) (grid_dimensions h)))"
proof -
  have cg1: "\<forall>n. find_parameter pf int_tables ''integer'' ''globalnumblocks'' True (handle h) = Inr n \<longrightarrow>
        count_grids pf h = Inr (h\<lparr>num_grids := n\<rparr>)"
    by (simp add: count_grids_def)
  have cg2: "\<forall>k. find_parameter pf int_tables ''integer'' ''globalnumblocks'' True (handle h) = Inl (KeyError k) \<longrightarrow>
        count_grids pf h =
          (case summary_first (handle h) of Inl e \<Rightarrow> Inl e | Inr n \<Rightarrow> Inr (h\<lparr>num_grids := n\<rparr>))"
    by (simp add: count_grids_def)
  have cg3: "\<forall>e. find_parameter pf int_tables ''integer'' ''globalnumblocks'' True (handle h) = Inl e \<and>
        \<not> is_KeyError e \<longrightarrow> count_grids pf h = Inl e"
    by (simp add: count_grids_def)
  have sf: "\<forall>name v row rows. is_open f \<and>
        simulation_parameters (content f) = Some (((name, v) # row) # rows) \<longrightarrow>
        summary_first (Some f) = Inr v"
    by (simp add: summary_first_def h5_get_def)
  have bs1: "\<forall>x y z. find_parameter pf int_tables ''integer'' ''nxb'' True (Some f) = Inr x \<and>
        find_parameter pf int_tables ''integer'' ''nyb'' True (Some f) = Inr y \<and>
        find_parameter pf int_tables ''integer'' ''nzb'' True (Some f) = Inr z \<longrightarrow>
        block_sizes pf f = Inr (x, y, z)"
    by (simp add: block_sizes_def lookup_block_sizes_def)
  have bs2: "\<forall>k row x y z. is_open f \<and>
        (find_parameter pf int_tables ''integer'' ''nxb'' True (Some f) = Inl (KeyError k) \<or>
         find_parameter pf int_tables ''integer'' ''nyb'' True (Some f) = Inl (KeyError k) \<or>
         find_parameter pf int_tables ''integer'' ''nzb'' True (Some f) = Inl (KeyError k)) \<and>
        simulation_parameters (content f) = Some [row] \<and>
        map_of row ''nxb'' = Some x \<and> map_of row ''nyb'' = Some y \<and> map_of row ''nzb'' = Some z \<longrightarrow>
        block_sizes pf f = Inr (x, y, z)"
  proof (intro allI impI)
    fix k row x y z
    assume a: "is_open f \<and>
        (find_parameter pf int_tables ''integer'' ''nxb'' True (Some f) = Inl (KeyError k) \<or>
         find_parameter pf int_tables ''integer'' ''nyb'' True (Some f) = Inl (KeyError k) \<or>
         find_parameter pf int_tables ''integer'' ''nzb'' True (Some f) = Inl (KeyError k)) \<and>
        simulation_parameters (content f) = Some [row] \<and>
        map_of row ''nxb'' = Some x \<and> map_of row ''nyb'' = Some y \<and> map_of row ''nzb'' = Some z"
    then have s: "summary_block_sizes f = Inr (x, y, z)"
      by (simp add: summary_block_sizes_def summary_field_def h5_get_def)
    have ke: "\<And>pname e. find_parameter pf int_tables ''integer'' pname True (Some f) = Inl e \<Longrightarrow>
        is_KeyError e"
      using a find_parameter_open by blast
    have "\<exists>e. lookup_block_sizes pf f = Inl e \<and> is_KeyError e"
    proof (cases "find_parameter pf int_tables ''integer'' ''nxb'' True (Some f)")
      case (Inl e)
      with ke show ?thesis by (simp add: lookup_block_sizes_def)
    next
      case nxb: (Inr x')
      show ?thesis
      proof (cases "find_parameter pf int_tables ''integer'' ''nyb'' True (Some f)")
        case (Inl e)
        with nxb ke show ?thesis by (simp add: lookup_block_sizes_def)
      next
        case nyb: (Inr y')
        show ?thesis
        proof (cases "find_parameter pf int_tables ''integer'' ''nzb'' True (Some f)")
          case (Inl e)
          with nxb nyb ke show ?thesis by (simp add: lookup_block_sizes_def)
        next
          case (Inr z')
          with nxb nyb a show ?thesis by simp
        qed
      qed
    qed
    with s show "block_sizes pf f = Inr (x, y, z)"
      by (auto simp: block_sizes_def)
  qed
  have ph: "\<forall>x y z bb np rl. handle h = Some f \<and> is_open f \<and> block_sizes pf f = Inr (x, y, z) \<and>
        bounding_box (content f) = Some bb \<and>
        length bb = length (grid_left_edge h) \<and> length bb = length (grid_right_edge h) \<and>
        localnp (content f) = Some np \<and> length np = length (grid_particle_count h) \<and>
        num_grids h = int (length np) \<and>
        refine_level (content f) = Some rl \<and> length np \<le> length (grid_levels h) \<longrightarrow>
        (\<exists>h'. parse_hierarchy pf h = Inr h' \<and>
           grid_dimensions h' = map (\<lambda>(a, b, c). (a * x, b * y, c * z)) (grid_dimensions h))"
    using parse_hierarchy_returns by blast
  from cg1 cg2 cg3 sf bs1 bs2 ph show ?thesis by blast
qed

theorem lookup_fallbacks_witness:
  "num_grids (projr (count_grids (sample_output summary_only_file)
      (new_hierarchy\<lparr>handle := Some (H5File True summary_only_file)\<rparr>))) = 4 \<and>
   block_sizes (sample_output no_nxb_file) (H5File True no_nxb_file) = Inr (8, 8, 8) \<and>
   returns (parsed no_nxb_file 4) \<and>
   grid_dimensions (projr (parsed no_nxb_file 4)) = replicate 4 (8, 8, 8) \<and>
   count_grids (sample_output tree_file) (allocated tree_file 0) =
     Inr ((allocated tree_file 0)\<lparr>num_grids := 4\<rparr>) \<and>
   count_grids (sample_output tree_file)
     (new_hierarchy\<lparr>handle := Some (H5File False tree_file)\<rparr>) = Inl ValueError \<and>
   block_sizes (sample_output tree_file) (H5File True tree_file) = Inr (8, 8, 8)"
proof -
  let ?f = "H5File True no_nxb_file"
  let ?pf = "sample_output no_nxb_file"
  let ?h = "allocated no_nxb_file 4"
  let ?g = "H5File True summary_only_file"
  let ?pg = "sample_output summary_only_file"
  let ?hg = "new_hierarchy\<lparr>handle := Some ?g\<rparr> :: rat hierarchy"
  let ?row = "[(''total blocks'', 4), (''nxb'', 8), (''nyb'', 8), (''nzb'', 8 :: int)]"
  have hg: "handle ?hg = Some ?g" by simp
  have k1: "find_parameter ?pg int_tables ''integer'' ''globalnumblocks'' True (Some ?g) =
      Inl (KeyError ''/integer scalars'')"
    by code_simp
  have sg: "is_open ?g \<and> simulation_parameters (content ?g) =
      Some (((''total blocks'', 4) # [(''nxb'', 8), (''nyb'', 8), (''nzb'', 8)]) # [])"
    by (simp add: summary_only_file_def tree_file_def sample_file_def)
  from lookup_fallbacks[of ?pg ?hg ?g] sg have "summary_first (Some ?g) = Inr 4"
    by blast
  moreover from lookup_fallbacks[of ?pg ?hg ?g] k1 hg have
    "count_grids ?pg ?hg =
       (case summary_first (Some ?g) of Inl e \<Rightarrow> Inl e | Inr n \<Rightarrow> Inr (?hg\<lparr>num_grids := n\<rparr>))"
    by simp
  ultimately have cg: "num_grids (projr (count_grids ?pg ?hg)) = 4" by simp
  have k2: "find_parameter ?pf int_tables ''integer'' ''nxb'' True (Some ?f) = Inl (KeyError ''nxb'')"
    by code_simp
  have sf: "is_open ?f \<and> simulation_parameters (content ?f) = Some [?row] \<and>
      map_of ?row ''nxb'' = Some 8 \<and> map_of ?row ''nyb'' = Some 8 \<and> map_of ?row ''nzb'' = Some 8"
    by (simp add: no_nxb_file_def tree_file_def sample_file_def)
  note t = lookup_fallbacks[of ?pf ?h ?f]
  from t k2 sf have bs: "block_sizes ?pf ?f = Inr (8, 8, 8)" by blast
  have shape: "handle ?h = Some ?f \<and> is_open ?f \<and>
      bounding_box (content ?f) = Some (replicate 4 ((0, 1), (0, 1), (0, 1))) \<and>
      length (replicate 4 ((0 :: rat, 1 :: rat), (0 :: rat, 1 :: rat), (0 :: rat, 1 :: rat))) =
        length (grid_left_edge ?h) \<and>
      length (replicate 4 ((0 :: rat, 1 :: rat), (0 :: rat, 1 :: rat), (0 :: rat, 1 :: rat))) =
        length (grid_right_edge ?h) \<and>
      localnp (content ?f) = Some [0, 5, 3, 0] \<and>
      length [0, 5, 3, 0 :: int] = length (grid_particle_count ?h) \<and>
      num_grids ?h = int (length [0, 5, 3, 0 :: int]) \<and>
      refine_level (content ?f) = Some [1, 2, 2, 2] \<and>
      length [0, 5, 3, 0 :: int] \<le> length (grid_levels ?h)"
    by (simp add: allocated_def no_nxb_file_def tree_file_def sample_file_def eval_nat_numeral)
  from t bs shape have "\<exists>h'. parse_hierarchy ?pf ?h = Inr h' \<and>
      grid_dimensions h' = map (\<lambda>(a, b, c). (a * 8, b * 8, c * 8)) (grid_dimensions ?h)"
    by blast
  then have ps: "returns (parsed no_nxb_file 4) \<and>
      grid_dimensions (projr (parsed no_nxb_file 4)) = replicate 4 (8, 8, 8)"
    by (auto simp: parsed_def returns_def allocated_def)
  let ?t = "H5File True tree_file"
  let ?pt = "sample_output tree_file"
  let ?ht = "allocated tree_file 0"
  let ?hc = "new_hierarchy\<lparr>handle := Some (H5File False tree_file)\<rparr> :: rat hierarchy"
  have ht: "handle ?ht = Some ?t" by (simp add: allocated_def)
  have l1: "find_parameter ?pt int_tables ''integer'' ''globalnumblocks'' True (Some ?t) = Inr 4"
    by code_simp
  from lookup_fallbacks[of ?pt ?ht ?t] l1 ht have
    found: "count_grids ?pt ?ht = Inr (?ht\<lparr>num_grids := 4\<rparr>)"
    by simp
  have hc: "handle ?hc = Some (H5File False tree_file)" by simp
  have l2: "find_parameter ?pt int_tables ''integer'' ''globalnumblocks'' True
      (Some (H5File False tree_file)) = Inl ValueError"
    by code_simp
  from lookup_fallbacks[of ?pt ?hc ?t] l2 hc have
    other: "count_grids ?pt ?hc = Inl ValueError"
    by simp
  have l3: "find_parameter ?pt int_tables ''integer'' ''nxb'' True (Some ?t) = Inr 8 \<and>
      find_parameter ?pt int_tables ''integer'' ''nyb'' True (Some ?t) = Inr 8 \<and>
      find_parameter ?pt int_tables ''integer'' ''nzb'' True (Some ?t) = Inr 8"
    by code_simp
  from lookup_fallbacks[of ?pt ?ht ?t] l3 have
    looked: "block_sizes ?pt ?t = Inr (8, 8, 8)"
    by blast
  from cg bs ps found other looked show ?thesis by simp
qed


subsection \<open>The file handle\<close>

text \<open>
  Claim C5, as stated, at a failing build and a failing parse: the build of the file
  whose adjacency table names child 99 raises IndexError, and parsing the parameters of
  the file without "zmax" raises KeyError; in both the handle that was opened is still
  open when the error reaches the caller.
\<close>

theorem handle_left_open_on_error:
  "\<not> returns (fst (FLASHHierarchy_init (sample_output corrupt_file))) \<and>
   projl (fst (FLASHHierarchy_init (sample_output corrupt_file))) = IndexError \<and>
   map_option is_open (snd (FLASHHierarchy_init (sample_output corrupt_file))) = Some True \<and>
   fst (parse_parameter_file (sample_output no_zmax_file)) = Some (KeyError ''zmax'') \<and>
   map_option is_open (pf_handle (snd (parse_parameter_file (sample_output no_zmax_file)))) = Some True"
  by code_simp



text \<open>
  Claim C5, amended. The handle opened by the constructor of the hierarchy and the one
  opened by \<^verbatim>\<open>_parse_parameter_file\<close> are closed when the call returns without an
  error; when it raises after the handle was opened, the handle is still open as the
  error reaches the caller.
\<close>

theorem handle_closed_on_return_only:
  fixes pf :: "'f::zero static_output"
  shows
  "(\<forall>h hd. FLASHHierarchy_init pf = (Inr h, hd) \<longrightarrow>
      handle h = None \<and> (\<exists>c. file_contents pf = Some c \<and> hd = Some (H5File False c))) \<and>
   (\<forall>e hd c. FLASHHierarchy_init pf = (Inl e, hd) \<and> file_contents pf = Some c \<longrightarrow>
      hd = Some (H5File True c)) \<and>
   (\<forall>pf'. parse_parameter_file pf = (None, pf') \<longrightarrow>
      (\<exists>c. file_contents pf = Some c \<and> pf_handle pf' = Some (H5File False c))) \<and>
   (\<forall>e pf' c. parse_parameter_file pf = (Some e, pf') \<and> file_contents pf = Some c \<longrightarrow>
      pf_handle pf' = Some (H5File True c))"
proof -
  have a: "\<forall>h hd. FLASHHierarchy_init pf = (Inr h, hd) \<longrightarrow>
      handle h = None \<and> (\<exists>c. file_contents pf = Some c \<and> hd = Some (H5File False c))"
    by (auto simp: FLASHHierarchy_init_def h5py_File_def h5_close_def
             split: option.splits sum.splits)
  have b: "\<forall>e hd c. FLASHHierarchy_init pf = (Inl e, hd) \<and> file_contents pf = Some c \<longrightarrow>
      hd = Some (H5File True c)"
    by (auto simp: FLASHHierarchy_init_def h5py_File_def split: option.splits sum.splits)
  have c: "\<forall>pf'. parse_parameter_file pf = (None, pf') \<longrightarrow>
      (\<exists>c. file_contents pf = Some c \<and> pf_handle pf' = Some (H5File False c))"
    by (auto simp: parse_parameter_file_def Let_def split: option.splits sum.splits)
  have d: "\<forall>e pf' c. parse_parameter_file pf = (Some e, pf') \<and> file_contents pf = Some c \<longrightarrow>
      pf_handle pf' = Some (H5File True c)"
    by (auto simp: parse_parameter_file_def Let_def split: option.splits sum.splits)
  from a b c d show ?thesis by blast
qed

theorem handle_closed_on_return_only_witness:
  "returns (fst (FLASHHierarchy_init (sample_output tree_file))) \<and>
   snd (FLASHHierarchy_init (sample_output tree_file)) = Some (H5File False tree_file) \<and>
   \<not> returns (fst (FLASHHierarchy_init (sample_output corrupt_file))) \<and>
   snd (FLASHHierarchy_init (sample_output corrupt_file)) = Some (H5File True corrupt_file) \<and>
   pf_handle (snd (parse_parameter_file (sample_output tree_file))) = Some (H5File False tree_file) \<and>
   pf_handle (snd (parse_parameter_file (sample_output no_zmax_file))) =
     Some (H5File True no_zmax_file)"
proof -
  let ?a = "FLASHHierarchy_init (sample_output tree_file)"
  let ?b = "FLASHHierarchy_init (sample_output corrupt_file)"
  let ?c = "parse_parameter_file (sample_output tree_file)"
  let ?d = "parse_parameter_file (sample_output no_zmax_file)"
  have ra: "returns (fst ?a)" by code_simp
  then have ea: "?a = (Inr (projr (fst ?a)), snd ?a)"
    using returns_projr[of "fst ?a"] by (simp add: prod_eq_iff)
  have rb: "\<not> returns (fst ?b)" by code_simp
  then have eb: "?b = (Inl (projl (fst ?b)), snd ?b)"
    using not_returns_projl[of "fst ?b"] by (simp add: prod_eq_iff)
  have rc: "fst ?c = None" by code_simp
  then have ec: "?c = (None, snd ?c)" by (simp add: prod_eq_iff)
  have rd: "fst ?d = Some (KeyError ''zmax'')" by code_simp
  then have ed: "?d = (Some (KeyError ''zmax''), snd ?d)" by (simp add: prod_eq_iff)
  have fa: "file_contents (sample_output tree_file) = Some tree_file"
    and fb: "file_contents (sample_output corrupt_file) = Some corrupt_file"
    and fd: "file_contents (sample_output no_zmax_file) = Some no_zmax_file"
    by (simp_all add: sample_output_def)
  from handle_closed_on_return_only[of "sample_output tree_file"] ea fa
  have "snd ?a = Some (H5File False tree_file)" by fastforce
  moreover from handle_closed_on_return_only[of "sample_output corrupt_file"] eb fb
  have "snd ?b = Some (H5File True corrupt_file)" by blast
  moreover from handle_closed_on_return_only[of "sample_output tree_file"] ec fa
  have "pf_handle (snd ?c) = Some (H5File False tree_file)" by fastforce
  moreover from handle_closed_on_return_only[of "sample_output no_zmax_file"] ed fd
  have "pf_handle (snd ?d) = Some (H5File True no_zmax_file)" by blast
  ultimately show ?thesis using ra rb by simp
qed

subsection \<open>When the relationship pass returns\<close>

text \<open>
  The pass returns for every hierarchy of at least one grid whose adjacency table has a
  row for each grid and no child slot above the number of grids, whether or not every
  grid above level 0 is the child of another.
\<close>

lemma children_refs_returns:
  "\<forall>v \<in> set slots. v \<le> int n \<Longrightarrow> 0 < n \<Longrightarrow> returns (children_refs n slots)"
proof (induction slots)
  case Nil
  then show ?case by (simp add: returns_def)
next
  case (Cons i slots)
  then have r: "returns (children_refs n slots)" by simp
  show ?case
  proof (cases "i > -1")
    case False
    with r show ?thesis by simp
  next
    case True
    with Cons.prems have "\<exists>c. py_index n (i - 1) = Inr c"
      by (auto simp: py_index_def)
    with r True show ?thesis
      by (auto simp: returns_def split: sum.splits)
  qed
qed

lemma populate_grid_returns:
  assumes "p < length (grids h)" and "grid_id (grids h ! p) = int p + 1"
    and "p < length gidt" and "p < length (grid_levels h)"
    and "\<forall>v \<in> set (drop 7 (gidt ! p)). v \<le> int (length (grids h))"
  shows "returns (populate_grid gidt p h)"
proof -
  have r: "py_index (length gidt) (int p) = Inr p"
    using assms(3) by (simp add: py_index_def)
  from assms(1,5) have "returns (children_refs (length (grids h)) (drop 7 (gidt ! p)))"
    by (intro children_refs_returns) auto
  then obtain cs where
    cs: "children_refs (length (grids h)) (drop 7 (gidt ! p)) = Inr cs"
    by (auto simp: returns_def split: sum.splits)
  have b: "\<forall>c \<in> set cs. c < length (grids h)"
    using cs children_refs_bound by blast
  let ?gs = "set_parents p cs ((grids h)[p := (grids h ! p)\<lparr>Children := cs\<rparr>])"
  have "grid_id (?gs ! p) = int p + 1"
    using b assms(1,2) by (auto simp: set_parents_nth)
  moreover have "py_index (length (grid_levels h)) (int p) = Inr p"
    using assms(4) by (simp add: py_index_def)
  ultimately have "returns (prepare_grid p (h\<lparr>grids := ?gs\<rparr>))"
    by (simp add: prepare_grid_def Let_def id_offset_def returns_def)
  with r cs assms(2) show ?thesis
    by (simp add: populate_grid_def Let_def id_offset_def)
qed

lemma populate_grid_length_levels:
  "populate_grid gidt p h = Inr h' \<Longrightarrow> length (grid_levels h') = length (grid_levels h)"
  by (auto simp: populate_grid_def prepare_grid_def Let_def split: sum.splits)

lemma populate_loop_returns:
  assumes "\<forall>p \<in> set ps. p < length (grids h) \<and> p < length gidt \<and> p < length (grid_levels h) \<and>
             (\<forall>v \<in> set (drop 7 (gidt ! p)). v \<le> int (length (grids h)))"
    and "\<forall>i < length (grids h). grid_id (grids h ! i) = int i + 1"
  shows "returns (populate_loop gidt ps h)"
  using assms
proof (induction ps arbitrary: h)
  case Nil
  then show ?case by (simp add: returns_def)
next
  case (Cons q ps)
  have q: "q < length (grids h)" using Cons.prems(1) by simp
  have "returns (populate_grid gidt q h)"
    using Cons.prems by (intro populate_grid_returns) auto
  then obtain h1 where step: "populate_grid gidt q h = Inr h1"
    by (auto simp: returns_def split: sum.splits)
  note ids = populate_grid_ids[OF step q]
  note lv = populate_grid_length_levels[OF step]
  have "returns (populate_loop gidt ps h1)"
    using Cons.prems ids(1,2) lv by (intro Cons.IH) auto
  with step show ?case by simp
qed

lemma populate_grid_objects_returns:
  assumes "parse_hierarchy pf h0 = Inr h"
    and "handle h0 = Some f" and "gid (content f) = Some gidt"
    and "length (grid_levels h0) = nat (num_grids h0)" and "0 < num_grids h0"
    and "nat (num_grids h0) \<le> length gidt"
    and "\<forall>p < nat (num_grids h0). \<forall>v \<in> set (drop 7 (gidt ! p)). v \<le> num_grids h0"
  shows "returns (populate_grid_objects h)"
proof -
  note pg = parse_hierarchy_grids[OF assms(1)]
  from pg(4,5) assms(2) have hf: "handle h = Some f" and op: "is_open f" by auto
  from op assms(3) have get: "h5_get f gid ''/gid'' = Inr gidt"
    by (simp add: h5_get_def)
  from assms(1) obtain rl where
    "grid_levels h = flat_assign (grid_levels h0) (map (\<lambda>l. l - 1) rl)"
    by (rule parse_hierarchy_Inr) simp
  then have ll: "length (grid_levels h) = nat (num_grids h0)"
    using assms(4) by (simp add: length_flat_assign)
  have ids: "\<forall>i < length (grids h). grid_id (grids h ! i) = int i + 1"
    using pg(1,2) by (simp add: FLASHGrid_init_def)
  have "returns (populate_loop gidt (argsort (grid_levels h)) h)"
    using assms(5,6,7) pg(1) ll ids
    by (intro populate_loop_returns) (auto simp: set_argsort)
  then obtain h1 where loop: "populate_loop gidt (argsort (grid_levels h)) h = Inr h1"
    by (auto simp: returns_def split: sum.splits)
  have g1: "\<forall>i < length (grids h). grid_id (grids h ! i) = int i + 1 \<and>
                               Level (grids h ! i) = grid_levels h ! i"
    using pg(1,2) by (simp add: FLASHGrid_init_def)
  have bound: "\<forall>p \<in> set (argsort (grid_levels h)). p < length (grids h)"
    using pg(1) ll by (simp add: set_argsort)
  have len1: "length (grid_levels h) = length (grids h)" using pg(1) ll by simp
  from populate_loop_levels[OF loop bound len1 g1] have "grid_levels h1 = grid_levels h"
    by simp
  with ll assms(5) have "grid_levels h1 \<noteq> []" by auto
  then have "returns (array_max (grid_levels h1))"
    by (cases "grid_levels h1") (simp_all add: array_max_def returns_def)
  with hf get loop bound show ?thesis
    by (auto simp: populate_grid_objects_def Let_def returns_def not_le split: sum.splits)
qed

end
